theory Spec2Isabelle
  imports Main "HOL-Library.Word"
begin

section \<open>Shared data: bytes, errors, a small file system\<close>

type_synonym byte = "8 word"
type_synonym bytes = "byte list"

text \<open>
  The exceptions the modelled functions raise. Every raise of the source is an \<open>Inl\<close> of
  the model.
\<close>

datatype error =
    KeyError
  | IndexError
  | OverflowError
  | AssertionError
  | IsADirectoryError
  | SPSDKPfrError
  | SPSDKPfrConfigError
  | SPSDKPfrRotkhIsNotPresent
  | SPSDKRegsErrorRegisterNotFound

text \<open>
  Files are written with \<open>open(path, "wb")\<close>. The file system is a map from paths to
  nodes; opening a directory for writing raises, anything else is created or replaced.
\<close>

datatype node = Dir | File bytes

type_synonym fs = "string \<rightharpoonup> node"

definition open_wb_write :: "fs \<Rightarrow> string \<Rightarrow> bytes \<Rightarrow> error + fs" where
  "open_wb_write files path content =
     (case files path of
        Some Dir \<Rightarrow> Inl IsADirectoryError
      | _ \<Rightarrow> Inr (files(path \<mapsto> File content)))"

section \<open>elftosb: Master Boot Image type lookup\<close>

datatype MasterBootImageType =
    CRC_RAM_IMAGE
  | CRC_XIP_IMAGE
  | SIGNED_XIP_IMAGE
  | SIGNED_XIP_NXP_IMAGE

text \<open>Python formats a bool in an f-string as \<open>True\<close> or \<open>False\<close>.\<close>

definition str_bool :: "bool \<Rightarrow> string" where
  "str_bool b = (if b then ''True'' else ''False'')"

definition sb3_image_types :: "(string \<times> MasterBootImageType) list" where
  "sb3_image_types =
     [(''crc-ram-False'', CRC_RAM_IMAGE),
      (''crc-xip-False'', CRC_XIP_IMAGE),
      (''signed-xip-False'', SIGNED_XIP_IMAGE),
      (''signed-xip-True'', SIGNED_XIP_NXP_IMAGE)]"

text \<open>
  \<open>_get_master_boot_image_type\<close>: the key is the f-string
  \<open>{output_image_auth_type}-{output_image_exec_target}-{use_isk}\<close>; subscripting the
  dictionary with an unknown key raises KeyError.
\<close>

definition get_master_boot_image_type ::
    "string \<Rightarrow> string \<Rightarrow> bool \<Rightarrow> error + MasterBootImageType" where
  "get_master_boot_image_type output_image_auth_type output_image_exec_target use_isk =
     (let image_type =
            output_image_auth_type @ ''-'' @ output_image_exec_target @ ''-'' @ str_bool use_isk
      in case map_of sb3_image_types image_type of
           None \<Rightarrow> Inl KeyError
         | Some t \<Rightarrow> Inr t)"

section \<open>elftosb: Secure Binary v2.1 (\<open>generate_secure_binary_21\<close>)\<close>

text \<open>
  The \<open>options\<close> mapping of the parsed command script. A key that is missing from the
  mapping is \<open>None\<close>.
\<close>

record bd_options =
  productVersion :: "string option"
  componentVersion :: "string option"
  buildNumber :: "int option"

text \<open>
  The version block of \<open>generate_secure_binary_21\<close>: each option is read with
  \<open>.get(key, default)\<close>, then replaced, with a warning, when it is empty (the build
  number: when it is \<open>-1\<close>). The result is the three values handed on to the image and the
  warnings echoed.
\<close>

definition sb21_versions :: "bd_options \<Rightarrow> (string \<times> string \<times> int) \<times> string list" where
  "sb21_versions options =
     (let product_version = (case productVersion options of None \<Rightarrow> [] | Some v \<Rightarrow> v);
          component_version = (case componentVersion options of None \<Rightarrow> [] | Some v \<Rightarrow> v);
          build_number = (case buildNumber options of None \<Rightarrow> - 1 | Some v \<Rightarrow> v);
          w1 = (if product_version = []
                then [''warning: production version not defined, defaults to 1.0.0''] else []);
          product_version = (if product_version = [] then ''1.0.0'' else product_version);
          w2 = (if component_version = []
                then [''warning: component version not defined, defaults to 1.0.0''] else []);
          component_version = (if component_version = [] then ''1.0.0'' else component_version);
          w3 = (if build_number = - 1
                then [''warning: build number not defined, defaults to 1.0.0''] else []);
          build_number = (if build_number = - 1 then 1 else build_number)
      in ((product_version, component_version, build_number), w1 @ w2 @ w3))"

text \<open>\<open>os.path.join\<close> of a directory and a relative file name (POSIX).\<close>

definition os_path_join :: "string \<Rightarrow> string \<Rightarrow> string" where
  "os_path_join a b = (if a = [] then b else if last a = CHR ''/'' then a @ b else a @ ''/'' @ b)"

text \<open>
  The path the root-key hash is written to. When \<open>hoh_out_path\<close> is \<open>None\<close> the source
  assigns \<open>os.getcwd()\<close> to it and then evaluates \<open>os.path.join(hoh_out_path, "hash.bin")\<close>
  as a statement of its own: the joined path is computed and dropped.
\<close>

definition hoh_out_target :: "string \<Rightarrow> string option \<Rightarrow> string" where
  "hoh_out_target getcwd hoh_out_path =
     (case hoh_out_path of
        None \<Rightarrow> (let hoh_out_path = getcwd; dropped = os_path_join hoh_out_path ''hash.bin''
                 in hoh_out_path)
      | Some p \<Rightarrow> p)"

text \<open>
  \<open>generate_secure_binary_21\<close> from the check of the signing material on. The parser, the
  key-encryption key, the boot sections and the certificate block are library code:
  \<open>assemble\<close> stands for them and maps the three version values to the root-key hash table
  (\<open>cert_block.rkht\<close>) and the exported image. The result is how the call ends and the file
  system it leaves behind.
\<close>

datatype exit_status = Returned | SystemExit nat | Raised error

definition generate_secure_binary_21 ::
    "(string \<Rightarrow> string \<Rightarrow> int \<Rightarrow> bytes \<times> bytes) \<Rightarrow> bd_options \<Rightarrow> string \<Rightarrow>
     string option \<Rightarrow> string list option \<Rightarrow> string list option \<Rightarrow> string option \<Rightarrow>
     string \<Rightarrow> fs \<Rightarrow> exit_status \<times> fs" where
  "generate_secure_binary_21 assemble options output_file_path private_key_file_path
       signing_certificate_file_paths root_key_certificate_paths hoh_out_path getcwd files =
     (if private_key_file_path = None \<or> signing_certificate_file_paths = None \<or>
         root_key_certificate_paths = None
      then (SystemExit 1, files)
      else
        let ((product_version, component_version, build_number), warnings) = sb21_versions options;
            (rkht, exported) = assemble product_version component_version build_number;
            hoh_out_path = hoh_out_target getcwd hoh_out_path
        in case open_wb_write files hoh_out_path rkht of
             Inl err \<Rightarrow> (Raised err, files)
           | Inr files1 \<Rightarrow>
               (case open_wb_write files1 output_file_path exported of
                  Inl err \<Rightarrow> (Raised err, files1)
                | Inr files2 \<Rightarrow> (Returned, files2)))"

section \<open>elftosb: Secure Binary v3.1 (\<open>generate_secure_binary\<close>)\<close>

text \<open>
  What the library calls before the assembly deliver: the exported command block with its
  block count and final hash, the exported certificate block, the header's initial
  \<open>image_total_length\<close>, the signing key and the output path.
\<close>

record sb31_parts =
  commands_data :: bytes
  block_count :: nat
  final_hash :: bytes
  data_cb :: bytes
  image_total_length :: nat
  private_key_data :: bytes
  container_output :: string

text \<open>
  \<open>generate_secure_binary\<close> from \<open>final_data = bytes()\<close> on. \<open>header_export\<close> is the
  header's export as a function of block count and total length; \<open>ecc_sign\<close> and
  \<open>ecc_verify\<close> are the crypto backend. A failed \<open>assert\<close> raises AssertionError.
\<close>

definition generate_secure_binary ::
    "(nat \<Rightarrow> nat \<Rightarrow> bytes) \<Rightarrow> (bytes \<Rightarrow> bytes \<Rightarrow> bytes) \<Rightarrow> (bytes \<Rightarrow> bytes \<Rightarrow> bytes \<Rightarrow> bool) \<Rightarrow>
     sb31_parts \<Rightarrow> fs \<Rightarrow> exit_status \<times> fs" where
  "generate_secure_binary header_export ecc_sign ecc_verify parts files =
     (let final_data = [];
          total = image_total_length parts + (length (final_hash parts) + length (data_cb parts));
          total = total + 2 * length (final_hash parts);
          sb_header_data = header_export (block_count parts) total;
          final_data = final_data @ sb_header_data;
          final_data = final_data @ final_hash parts;
          final_data = final_data @ data_cb parts;
          data_to_sign = final_data;
          signature = ecc_sign (private_key_data parts) data_to_sign
      in if \<not> ecc_verify (private_key_data parts) signature data_to_sign
         then (Raised AssertionError, files)
         else
           let final_data = final_data @ signature;
               final_data = final_data @ commands_data parts
           in case open_wb_write files (container_output parts) final_data of
                Inl err \<Rightarrow> (Raised err, files)
              | Inr files1 \<Rightarrow> (Returned, files1))"

text \<open>
  The bytes the signature is computed over: the exported header, the hash of the previous
  block and the certificate block.
\<close>

definition signed_prefix :: "(nat \<Rightarrow> nat \<Rightarrow> bytes) \<Rightarrow> sb31_parts \<Rightarrow> bytes" where
  "signed_prefix header_export parts =
     header_export (block_count parts)
       (image_total_length parts + length (final_hash parts) + length (data_cb parts) +
        2 * length (final_hash parts)) @ final_hash parts @ data_cb parts"

text \<open>A small container, for running the assembler.\<close>

definition parts0 :: sb31_parts where
  "parts0 = \<lparr>commands_data = [9, 9], block_count = 1, final_hash = [7, 7, 7, 7], data_cb = [5],
             image_total_length = 60, private_key_data = [1], container_output = ''out.sb3''\<rparr>"

section \<open>pfr: the hash of a public key (\<open>calc_pub_key_hash\<close>)\<close>

text \<open>
  The public numbers of a key: exponent and modulus of an RSA key, curve size and
  coordinates of an EC key.
\<close>

datatype public_key =
    RSAPublicKey (rsa_e: nat) (rsa_n: nat)
  | EllipticCurvePublicKey (ec_key_size: nat) (ec_x: nat) (ec_y: nat)

text \<open>
  The crypto backend's \<open>hash(data, algorithm=f"sha{width}")\<close>, as a function of the data and
  the width.
\<close>

type_synonym backend_hash = "bytes \<Rightarrow> nat \<Rightarrow> bytes"

text \<open>\<open>int.bit_length()\<close> of a non-negative integer.\<close>

fun bit_length :: "nat \<Rightarrow> nat" where
  "bit_length v = (if v = 0 then 0 else Suc (bit_length (v div 2)))"

declare bit_length.simps [simp del]

text \<open>\<open>math.ceil(bits / 8)\<close>.\<close>

definition ceil_div8 :: "nat \<Rightarrow> nat" where
  "ceil_div8 bits = (bits + 7) div 8"

text \<open>The \<open>len\<close> low-order base-256 digits of \<open>v\<close>, most significant first.\<close>

fun be_bytes :: "nat \<Rightarrow> nat \<Rightarrow> bytes" where
  "be_bytes 0 v = []"
| "be_bytes (Suc len) v = be_bytes len (v div 256) @ [of_nat (v mod 256)]"

text \<open>\<open>v.to_bytes(len, "big")\<close>: OverflowError when \<open>v\<close> does not fit into \<open>len\<close> bytes.\<close>

definition to_bytes_big :: "nat \<Rightarrow> nat \<Rightarrow> error + bytes" where
  "to_bytes_big v len = (if v < 256 ^ len then Inr (be_bytes len v) else Inl OverflowError)"

definition calc_pub_key_hash :: "backend_hash \<Rightarrow> public_key \<Rightarrow> nat \<Rightarrow> error + bytes" where
  "calc_pub_key_hash backend public_key sha_width =
     (let (n_1, n1_len, n_2, n2_len) =
            (case public_key of
               RSAPublicKey e n \<Rightarrow> (e, ceil_div8 (bit_length e), n, ceil_div8 (bit_length n))
             | EllipticCurvePublicKey key_size x y \<Rightarrow> (y, sha_width div 8, x, sha_width div 8))
      in case to_bytes_big n_1 n1_len of
           Inl err \<Rightarrow> Inl err
         | Inr n1_bytes \<Rightarrow>
             (case to_bytes_big n_2 n2_len of
                Inl err \<Rightarrow> Inl err
              | Inr n2_bytes \<Rightarrow> Inr (backend (n2_bytes @ n1_bytes) sha_width)))"

text \<open>
  The key hash as the specification words it: the hash of the big-endian encodings of
  (exponent, modulus), in that order, for an RSA key and of (Y, X), in that order, for an
  EC key.
\<close>

definition spec_pub_key_hash :: "backend_hash \<Rightarrow> public_key \<Rightarrow> nat \<Rightarrow> error + bytes" where
  "spec_pub_key_hash backend public_key sha_width =
     (case public_key of
        RSAPublicKey e n \<Rightarrow>
          Inr (backend (be_bytes (ceil_div8 (bit_length e)) e @ be_bytes (ceil_div8 (bit_length n)) n)
                 sha_width)
      | EllipticCurvePublicKey key_size x y \<Rightarrow>
          (if y < 256 ^ (sha_width div 8) \<and> x < 256 ^ (sha_width div 8)
           then Inr (backend (be_bytes (sha_width div 8) y @ be_bytes (sha_width div 8) x) sha_width)
           else Inl OverflowError))"

text \<open>The value of a byte string read as a big-endian number.\<close>

definition be_value :: "bytes \<Rightarrow> nat" where
  "be_value bs = foldl (\<lambda>acc b. 256 * acc + unat b) 0 bs"

section \<open>pfr: registers\<close>

text \<open>
  A register of a configuration area, and a member of a register group. A hook is the handler
  \<open>reg_computed_fields_handler\<close> with its context: the mapping from computed field to the
  name of its compute method.
\<close>

record sub_register =
  sub_offset :: nat
  sub_width :: nat
  sub_reverse :: bool
  sub_value :: bytes

record regs_register =
  reg_name :: string
  reg_offset :: nat
  reg_width :: nat
  reg_reverse :: bool
  reg_value :: bytes
  sub_regs :: "sub_register list"
  set_value_hooks :: "(string \<times> string) list list"

text \<open>
  \<open>pfr_reg_inverse_high_half\<close>: bytes 0 and 1 become the complements of bytes 2 and 3.
  Reading index 2 or 3 of a shorter value raises IndexError.
\<close>

definition pfr_reg_inverse_high_half :: "bytes \<Rightarrow> error + bytes" where
  "pfr_reg_inverse_high_half val =
     (if length val < 4 then Inl IndexError
      else let ret = val;
               ret = ret[0 := xor (ret ! 2) 255];
               ret = ret[1 := xor (ret ! 3) 255]
           in Inr ret)"

text \<open>
  The compute methods a configuration area has: \<open>hasattr(self, method)\<close> and
  \<open>getattr(self, method)\<close> for the one compute method the class defines.
\<close>

definition compute_method :: "string \<Rightarrow> (bytes \<Rightarrow> error + bytes) option" where
  "compute_method method =
     (if method = ''pfr_reg_inverse_high_half'' then Some pfr_reg_inverse_high_half else None)"

text \<open>
  \<open>reg_computed_fields_handler\<close>: the value goes through the compute method of every field
  of the context, in order; an unknown method raises SPSDKPfrError.
\<close>

fun reg_computed_fields_handler :: "bytes \<Rightarrow> (string \<times> string) list \<Rightarrow> error + bytes" where
  "reg_computed_fields_handler val [] = Inr val"
| "reg_computed_fields_handler val ((field, method) # rest) =
     (case compute_method method of
        None \<Rightarrow> Inl SPSDKPfrError
      | Some method_ref \<Rightarrow>
          (case method_ref val of
             Inl err \<Rightarrow> Inl err
           | Inr val1 \<Rightarrow> reg_computed_fields_handler val1 rest))"

text \<open>
  The register classes (\<open>spsdk.utils.registers\<close>) are not under src/; the methods the
  configuration area calls are modelled as follows.
\<close>

text \<open>
  Modelled from the spec: \<open>RegsRegister.get_value\<close>, not under src/. A register holds its
  value as bytes and \<open>get_value\<close> reads it.
\<close>

definition get_value :: "regs_register \<Rightarrow> bytes" where
  "get_value reg = reg_value reg"

text \<open>
  Modelled from the spec: the hooks of \<open>RegsRegister.set_value\<close>, not under src/. The value
  goes through every hook of the register, in the order they were added.
\<close>

fun run_value_hooks :: "(string \<times> string) list list \<Rightarrow> bytes \<Rightarrow> error + bytes" where
  "run_value_hooks [] val = Inr val"
| "run_value_hooks (context # hooks) val =
     (case reg_computed_fields_handler val context of
        Inl err \<Rightarrow> Inl err
      | Inr val1 \<Rightarrow> run_value_hooks hooks val1)"

text \<open>
  Modelled from the spec: \<open>RegsRegister.set_value(val, raw)\<close>, not under src/. With \<open>raw\<close>
  the value is stored as it is ("a raw (non-validated, non-recomputed) value"); without, it
  is sent through the register's hooks first.
\<close>

definition set_value :: "bytes \<Rightarrow> bool \<Rightarrow> regs_register \<Rightarrow> error + regs_register" where
  "set_value val raw reg =
     (if raw then Inr (reg\<lparr>reg_value := val\<rparr>)
      else case run_value_hooks (set_value_hooks reg) val of
             Inl err \<Rightarrow> Inl err
           | Inr val1 \<Rightarrow> Inr (reg\<lparr>reg_value := val1\<rparr>))"

text \<open>
  Modelled from the spec: \<open>Registers.find_reg(name)\<close>, not under src/. The first register
  of that name, or SPSDKRegsErrorRegisterNotFound ("look up the register by name; if
  absent ...").
\<close>

fun find_reg :: "string \<Rightarrow> regs_register list \<Rightarrow> error + regs_register" where
  "find_reg name [] = Inl SPSDKRegsErrorRegisterNotFound"
| "find_reg name (reg # regs) = (if reg_name reg = name then Inr reg else find_reg name regs)"

text \<open>
  Modelled from the spec: \<open>Registers.get_registers(exclude)\<close>, not under src/. The registers
  whose names are not excluded, in their order.
\<close>

definition get_registers :: "string list \<Rightarrow> regs_register list \<Rightarrow> regs_register list" where
  "get_registers exclude regs = filter (\<lambda>reg. reg_name reg \<notin> set exclude) regs"

text \<open>
  Modelled from the spec: \<open>Registers.get_reg_names()\<close>, not under src/. The names of all
  registers.
\<close>

definition get_reg_names :: "regs_register list \<Rightarrow> string list" where
  "get_reg_names regs = map reg_name (get_registers [] regs)"

text \<open>
  Modelled from the spec: \<open>RegsRegister.has_group_registers()\<close>, not under src/. A register
  is a group when it has members ("if it has sub-register groups").
\<close>

definition has_group_registers :: "regs_register \<Rightarrow> bool" where
  "has_group_registers reg = (sub_regs reg \<noteq> [])"

text \<open>
  Registers are objects: a method called on the register \<open>find_reg\<close> returned changes the
  register in the list. \<open>update_reg name f\<close> applies \<open>f\<close> to the register \<open>find_reg name\<close>
  finds.
\<close>

fun update_reg ::
    "string \<Rightarrow> (regs_register \<Rightarrow> error + regs_register) \<Rightarrow> regs_register list \<Rightarrow>
     error + regs_register list" where
  "update_reg name f [] = Inl SPSDKRegsErrorRegisterNotFound"
| "update_reg name f (reg # regs) =
     (if reg_name reg = name
      then (case f reg of Inl err \<Rightarrow> Inl err | Inr reg1 \<Rightarrow> Inr (reg1 # regs))
      else (case update_reg name f regs of Inl err \<Rightarrow> Inl err | Inr regs1 \<Rightarrow> Inr (reg # regs1)))"

text \<open>
  Modelled from the spec: \<open>Registers.run_hooks(exclude)\<close> is not under src/. Its argument is
  the list of register names to leave out (the caller builds it as \<open>exclude_hooks\<close>, under the
  comment "Just update only configured registers"); every other register is set to its own
  value again with the hooks on ("re-run recompute hooks").
\<close>

fun run_hooks :: "string list \<Rightarrow> regs_register list \<Rightarrow> error + regs_register list" where
  "run_hooks exclude [] = Inr []"
| "run_hooks exclude (reg # regs) =
     (case (if reg_name reg \<in> set exclude then Inr reg else set_value (get_value reg) False reg) of
        Inl err \<Rightarrow> Inl err
      | Inr reg1 \<Rightarrow>
          (case run_hooks exclude regs of
             Inl err \<Rightarrow> Inl err
           | Inr regs1 \<Rightarrow> Inr (reg1 # regs1)))"

section \<open>pfr: the configuration area (\<open>BaseConfigArea\<close>)\<close>

text \<open>
  A configuration area: its device and revision, the name of its class (CMPA or CFPA), its
  registers, and what the database (\<open>RegConfig\<close>, not under src/) says for the device: the
  ignored and the computed registers, the computed fields, the latest revision, the name of
  the register the seal starts at and the number of seals.
\<close>

record config_area =
  device :: string
  revision :: string
  class_name :: string
  registers :: "regs_register list"
  ignored_registers :: "string list"
  computed_registers :: "string list"
  computed_fields :: "(string \<times> (string \<times> string) list) list"
  latest_revision :: string
  seal_start_address :: "string option"
  seal_count :: "nat option"

definition BINARY_SIZE :: nat where
  "BINARY_SIZE = 512"

definition ROTKH_REGISTER :: string where
  "ROTKH_REGISTER = ''ROTKH''"

definition MARK :: bytes where
  "MARK = [0x53, 0x45, 0x41, 0x4C]"

text \<open>\<open>_get_registers\<close>: the registers but the ignored ones.\<close>

definition area_get_registers :: "config_area \<Rightarrow> regs_register list" where
  "area_get_registers area = get_registers (ignored_registers area) (registers area)"

subsection \<open>\<open>set_config\<close>\<close>

text \<open>
  A \<open>PfrConfiguration\<close>: device, revision and type may be \<open>None\<close>; the settings map register
  names to what the user configured for them (a mapping in insertion order).
\<close>

record 's pfr_configuration =
  cfg_device :: "string option"
  cfg_revision :: "string option"
  cfg_type :: "string option"
  cfg_settings :: "(string \<times> 's) list option"

text \<open>\<open>str.upper\<close> on ASCII letters.\<close>

definition upper_char :: "char \<Rightarrow> char" where
  "upper_char c =
     (let k = (of_char c :: nat) in if 97 \<le> k \<and> k \<le> 122 then char_of (k - 32) else c)"

definition str_upper :: "string \<Rightarrow> string" where
  "str_upper s = map upper_char s"

text \<open>
  \<open>list(set(self.registers.get_reg_names()) - set(config.settings.keys()))\<close>: the names of
  the registers that are not keys of the settings.
\<close>

definition exclude_hooks :: "regs_register list \<Rightarrow> (string \<times> 's) list \<Rightarrow> string list" where
  "exclude_hooks regs settings =
     remdups (filter (\<lambda>name. name \<notin> set (map fst settings)) (get_reg_names regs))"

text \<open>
  \<open>set_config\<close>. \<open>Registers.load_yml_config\<close> is not under src/ and is the parameter
  \<open>load_yml_config\<close>: it takes the settings, the registers to skip and the computed fields,
  and gives the registers with the settings applied.
\<close>

definition set_config ::
    "((string \<times> 's) list \<Rightarrow> string list \<Rightarrow> (string \<times> (string \<times> string) list) list option \<Rightarrow>
      regs_register list \<Rightarrow> error + regs_register list) \<Rightarrow>
     config_area \<Rightarrow> 's pfr_configuration \<Rightarrow> bool \<Rightarrow> error + config_area" where
  "set_config load_yml_config area config raw =
     (if device area = [] \<or> revision area = [] then Inl AssertionError
      else if cfg_device config \<noteq> Some (device area) then Inl SPSDKPfrConfigError
      else
        let config_revision =
              (if cfg_revision config = None \<or> cfg_revision config = Some [] \<or>
                  cfg_revision config = Some ''latest''
               then latest_revision area else the (cfg_revision config))
        in if config_revision \<noteq> revision area then Inl SPSDKPfrConfigError
           else if cfg_type config \<noteq> None \<and> cfg_type config \<noteq> Some [] \<and>
                   str_upper (the (cfg_type config)) \<noteq> class_name area
           then Inl SPSDKPfrConfigError
           else case cfg_settings config of
                  None \<Rightarrow> Inl SPSDKPfrConfigError
                | Some settings \<Rightarrow>
                    if settings = [] then Inl SPSDKPfrConfigError
                    else
                      let computed_regs =
                            ignored_registers area @ (if \<not> raw then computed_registers area else []);
                          computed = (if raw then None else Some (computed_fields area))
                      in case load_yml_config settings computed_regs computed (registers area) of
                           Inl err \<Rightarrow> Inl err
                         | Inr regs1 \<Rightarrow>
                             if \<not> raw
                             then (case run_hooks (exclude_hooks regs1 settings) regs1 of
                                     Inl err \<Rightarrow> Inl err
                                   | Inr regs2 \<Rightarrow> Inr (area\<lparr>registers := regs2\<rparr>))
                             else Inr (area\<lparr>registers := regs1\<rparr>))"

text \<open>
  The hook step of \<open>set_config\<close> as the specification words it: the hooks are re-run for
  every register the user did not set, that is, the registers left out are the keys of the
  settings.
\<close>

definition spec_rerun_hooks ::
    "regs_register list \<Rightarrow> (string \<times> 's) list \<Rightarrow> error + regs_register list" where
  "spec_rerun_hooks regs settings = run_hooks (map fst settings) regs"

text \<open>
  Modelled from the spec: \<open>Registers.load_yml_config\<close> is not under src/. The simplest
  loader of the Configure step ("mapping of register name to value"): every setting whose
  register is not skipped is stored in its register; an unknown register raises.
\<close>

fun load_values ::
    "(string \<times> bytes) list \<Rightarrow> string list \<Rightarrow> (string \<times> (string \<times> string) list) list option \<Rightarrow>
     regs_register list \<Rightarrow> error + regs_register list" where
  "load_values [] skip computed regs = Inr regs"
| "load_values ((name, val) # settings) skip computed regs =
     (if name \<in> set skip then load_values settings skip computed regs
      else case update_reg name (set_value val True) regs of
             Inl err \<Rightarrow> Inl err
           | Inr regs1 \<Rightarrow> load_values settings skip computed regs1)"

subsection \<open>\<open>_calc_rotkh\<close>\<close>

text \<open>\<open>bytes.ljust(width, fill)\<close>.\<close>

definition ljust :: "bytes \<Rightarrow> nat \<Rightarrow> byte \<Rightarrow> bytes" where
  "ljust bs w fill = bs @ replicate (w - length bs) fill"

text \<open>
  The list comprehension over the keys: the hashes in order, or the first exception.
\<close>

fun key_hashes_of :: "backend_hash \<Rightarrow> nat \<Rightarrow> public_key list \<Rightarrow> error + bytes list" where
  "key_hashes_of backend w [] = Inr []"
| "key_hashes_of backend w (key # keys) =
     (case calc_pub_key_hash backend key w of
        Inl err \<Rightarrow> Inl err
      | Inr h \<Rightarrow>
          (case key_hashes_of backend w keys of
             Inl err \<Rightarrow> Inl err
           | Inr hs \<Rightarrow> Inr (h # hs)))"

definition algorithm_width_of :: "public_key \<Rightarrow> nat" where
  "algorithm_width_of key =
     (case key of RSAPublicKey e n \<Rightarrow> 256 | EllipticCurvePublicKey key_size x y \<Rightarrow> key_size)"

definition calc_rotkh :: "backend_hash \<Rightarrow> config_area \<Rightarrow> public_key list \<Rightarrow> error + bytes" where
  "calc_rotkh backend area keys =
     (case find_reg ''ROTKH'' (registers area) of
        Inl err \<Rightarrow> Inl err
      | Inr reg_rotkh \<Rightarrow>
          let width = reg_width reg_rotkh
          in case keys of
               [] \<Rightarrow> Inl IndexError
             | key0 # others \<Rightarrow>
                 let algorithm_width = algorithm_width_of key0
                 in if algorithm_width > width then Inl SPSDKPfrError
                    else case key_hashes_of backend algorithm_width keys of
                           Inl err \<Rightarrow> Inl err
                         | Inr key_hashes \<Rightarrow>
                             let data = map (\<lambda>i. if i < length key_hashes then key_hashes ! i
                                                  else replicate (algorithm_width div 8) 0) [0..<4]
                             in Inr (ljust (backend (concat data) algorithm_width) (width div 8) 0))"

subsection \<open>\<open>export\<close> and \<open>parse\<close>\<close>

text \<open>
  \<open>data[a:b] = val\<close> on a bytearray with \<open>a \<le> b\<close>: the slice, cut at the end of the
  data, is replaced by \<open>val\<close>, whatever its length. \<open>data[a:b]\<close> reads the slice.
\<close>

definition slice_assign :: "bytes \<Rightarrow> nat \<Rightarrow> nat \<Rightarrow> bytes \<Rightarrow> bytes" where
  "slice_assign data a b val = take a data @ val @ drop (max a b) data"

definition slice :: "bytes \<Rightarrow> nat \<Rightarrow> nat \<Rightarrow> bytes" where
  "slice data a b = take (b - a) (drop a data)"

text \<open>
  The \<open>if keys:\<close> block of \<open>export\<close>: the ROTKH register is looked up, the hash computed
  and stored raw; SPSDKRegsErrorRegisterNotFound becomes SPSDKPfrRotkhIsNotPresent.
\<close>

definition rotkh_inject :: "backend_hash \<Rightarrow> public_key list \<Rightarrow> config_area \<Rightarrow> error + config_area" where
  "rotkh_inject backend keys area =
     (if keys \<noteq> []
      then (case (case find_reg ROTKH_REGISTER (registers area) of
                    Inl err \<Rightarrow> Inl err
                  | Inr rotkh_reg \<Rightarrow>
                      (case calc_rotkh backend area keys of
                         Inl err \<Rightarrow> Inl err
                       | Inr rotkh_data \<Rightarrow>
                           update_reg ROTKH_REGISTER (set_value rotkh_data True) (registers area))) of
              Inl err \<Rightarrow>
                Inl (if err = SPSDKRegsErrorRegisterNotFound then SPSDKPfrRotkhIsNotPresent else err)
            | Inr regs1 \<Rightarrow> Inr (area\<lparr>registers := regs1\<rparr>))
      else Inr area)"

text \<open>
  The body of the loop over the registers. \<open>change_endianism\<close> (\<open>spsdk.utils.misc\<close>) is not
  under src/ and is a parameter.
\<close>

definition write_sub_reg :: "(bytes \<Rightarrow> bytes) \<Rightarrow> sub_register \<Rightarrow> bytes \<Rightarrow> bytes" where
  "write_sub_reg change_endianism grp_reg data =
     (let val = (if sub_reverse grp_reg then sub_value grp_reg
                 else change_endianism (sub_value grp_reg))
      in slice_assign data (sub_offset grp_reg) (sub_offset grp_reg + sub_width grp_reg div 8) val)"

definition write_reg :: "(bytes \<Rightarrow> bytes) \<Rightarrow> regs_register \<Rightarrow> bytes \<Rightarrow> bytes" where
  "write_reg change_endianism reg data =
     (if has_group_registers reg
      then fold (write_sub_reg change_endianism) (sub_regs reg) data
      else let val = (if reg_reverse reg then get_value reg
                      else change_endianism (get_value reg))
           in slice_assign data (reg_offset reg) (reg_offset reg + reg_width reg div 8) val)"

definition get_seal_start_address :: "config_area \<Rightarrow> error + nat" where
  "get_seal_start_address area =
     (case seal_start_address area of
        None \<Rightarrow> Inl AssertionError
      | Some start \<Rightarrow>
          if start = [] then Inl AssertionError
          else (case find_reg start (registers area) of
                  Inl err \<Rightarrow> Inl err
                | Inr reg \<Rightarrow> Inr (reg_offset reg)))"

definition get_seal_count :: "config_area \<Rightarrow> error + nat" where
  "get_seal_count area =
     (case seal_count area of
        None \<Rightarrow> Inl AssertionError
      | Some count \<Rightarrow> if count = 0 then Inl AssertionError else Inr count)"

text \<open>\<open>export\<close> after the \<open>if keys:\<close> block.\<close>

definition export_data :: "(bytes \<Rightarrow> bytes) \<Rightarrow> bool \<Rightarrow> config_area \<Rightarrow> error + bytes" where
  "export_data change_endianism add_seal area =
     (let data = replicate BINARY_SIZE 0;
          data = fold (write_reg change_endianism) (area_get_registers area) data
      in case (if add_seal
               then (case get_seal_start_address area of
                       Inl err \<Rightarrow> Inl err
                     | Inr seal_start \<Rightarrow>
                         (case get_seal_count area of
                            Inl err \<Rightarrow> Inl err
                          | Inr count \<Rightarrow>
                              Inr (slice_assign data seal_start (seal_start + count * 4)
                                     (concat (replicate count MARK)))))
               else Inr data) of
           Inl err \<Rightarrow> Inl err
         | Inr data1 \<Rightarrow> if length data1 = BINARY_SIZE then Inr data1 else Inl AssertionError)"

text \<open>
  \<open>export\<close>: the bytes, and the area as the call leaves it (the ROTKH register is changed in
  place).
\<close>

definition export ::
    "backend_hash \<Rightarrow> (bytes \<Rightarrow> bytes) \<Rightarrow> bool \<Rightarrow> public_key list \<Rightarrow> config_area \<Rightarrow>
     error + bytes \<times> config_area" where
  "export backend change_endianism add_seal keys area =
     (case rotkh_inject backend keys area of
        Inl err \<Rightarrow> Inl err
      | Inr area1 \<Rightarrow>
          (case export_data change_endianism add_seal area1 of
             Inl err \<Rightarrow> Inl err
           | Inr data \<Rightarrow> Inr (data, area1)))"

text \<open>
  \<open>parse\<close>: every register but the ignored ones gets the bytes of its span, through
  \<open>change_endianism\<close>, as a raw value.
\<close>

definition parse_reg :: "(bytes \<Rightarrow> bytes) \<Rightarrow> bytes \<Rightarrow> regs_register \<Rightarrow> error + regs_register" where
  "parse_reg change_endianism data reg =
     (let val = slice data (reg_offset reg) (reg_offset reg + reg_width reg div 8)
      in set_value (change_endianism val) True reg)"

fun parse_regs ::
    "(bytes \<Rightarrow> bytes) \<Rightarrow> string list \<Rightarrow> bytes \<Rightarrow> regs_register list \<Rightarrow> error + regs_register list" where
  "parse_regs change_endianism exclude data [] = Inr []"
| "parse_regs change_endianism exclude data (reg # regs) =
     (case (if reg_name reg \<in> set exclude then Inr reg else parse_reg change_endianism data reg) of
        Inl err \<Rightarrow> Inl err
      | Inr reg1 \<Rightarrow>
          (case parse_regs change_endianism exclude data regs of
             Inl err \<Rightarrow> Inl err
           | Inr regs1 \<Rightarrow> Inr (reg1 # regs1)))"

definition parse :: "(bytes \<Rightarrow> bytes) \<Rightarrow> bytes \<Rightarrow> config_area \<Rightarrow> error + config_area" where
  "parse change_endianism data area =
     (case parse_regs change_endianism (ignored_registers area) data (registers area) of
        Inl err \<Rightarrow> Inl err
      | Inr regs1 \<Rightarrow> Inr (area\<lparr>registers := regs1\<rparr>))"

subsection \<open>Layouts that fit\<close>

text \<open>
  A layout that fits the area: every register written by \<open>export\<close> (every member, for a
  register group) lies inside the \<open>BINARY_SIZE\<close> bytes and holds a value of its own width.
\<close>

definition sub_reg_fits :: "sub_register \<Rightarrow> bool" where
  "sub_reg_fits grp_reg \<longleftrightarrow>
     sub_offset grp_reg + sub_width grp_reg div 8 \<le> BINARY_SIZE \<and>
     length (sub_value grp_reg) = sub_width grp_reg div 8"

definition reg_fits :: "regs_register \<Rightarrow> bool" where
  "reg_fits reg \<longleftrightarrow>
     (if has_group_registers reg then list_all sub_reg_fits (sub_regs reg)
      else reg_offset reg + reg_width reg div 8 \<le> BINARY_SIZE \<and>
           length (reg_value reg) = reg_width reg div 8)"

definition layout_ok :: "config_area \<Rightarrow> bool" where
  "layout_ok area \<longleftrightarrow> list_all reg_fits (area_get_registers area)"

section \<open>Inputs for running the model\<close>

text \<open>The generator of the curve P-256, as a public key, and its coordinates as bytes.\<close>

definition p256_generator :: public_key where
  "p256_generator =
     EllipticCurvePublicKey 256
       0x6B17D1F2E12C4247F8BCE6E563A440F277037D812DEB33A0F4A13945D898C296
       0x4FE342E2FE1A7F9B8EE7EB4A7C0F9E162BCE33576B315ECECBB6406837BF51F5"

definition p256_generator_x :: bytes where
  "p256_generator_x =
     [0x6B, 0x17, 0xD1, 0xF2, 0xE1, 0x2C, 0x42, 0x47, 0xF8, 0xBC, 0xE6, 0xE5, 0x63,
     0xA4, 0x40, 0xF2, 0x77, 0x03, 0x7D, 0x81, 0x2D, 0xEB, 0x33, 0xA0, 0xF4, 0xA1, 0x39,
     0x45, 0xD8, 0x98, 0xC2, 0x96]"

definition p256_generator_y :: bytes where
  "p256_generator_y =
     [0x4F, 0xE3, 0x42, 0xE2, 0xFE, 0x1A, 0x7F, 0x9B, 0x8E, 0xE7, 0xEB, 0x4A, 0x7C,
     0x0F, 0x9E, 0x16, 0x2B, 0xCE, 0x33, 0x57, 0x6B, 0x31, 0x5E, 0xCE, 0xCB, 0xB6, 0x40,
     0x68, 0x37, 0xBF, 0x51, 0xF5]"

text \<open>
  A stand-in for the backend's hash: the first \<open>width div 8\<close> bytes of the data, padded
  with zero bytes. It has the length of a digest of that width.
\<close>

definition toy_hash :: backend_hash where
  "toy_hash d w = take (w div 8) (d @ replicate (w div 8) 0)"

text \<open>
  A customer manufacturing area with four registers: a plain one, one with a computed
  field, the ROTKH register and the register the seal starts at.
\<close>

definition boot_cfg_reg :: regs_register where
  "boot_cfg_reg =
     \<lparr>reg_name = ''BOOT_CFG'', reg_offset = 0, reg_width = 32, reg_reverse = False,
      reg_value = [0x00, 0x00, 0x12, 0x34], sub_regs = [], set_value_hooks = []\<rparr>"

definition socu_pin_reg :: regs_register where
  "socu_pin_reg =
     \<lparr>reg_name = ''DCFG_CC_SOCU_PIN'', reg_offset = 24, reg_width = 32, reg_reverse = False,
      reg_value = [0x00, 0x00, 0x56, 0x78], sub_regs = [],
      set_value_hooks = [[(''INVERSE_VALUE'', ''pfr_reg_inverse_high_half'')]]\<rparr>"

definition rotkh_reg :: regs_register where
  "rotkh_reg =
     \<lparr>reg_name = ''ROTKH'', reg_offset = 80, reg_width = 256, reg_reverse = True,
      reg_value = replicate 32 0, sub_regs = [], set_value_hooks = []\<rparr>"

definition sha256_digest_reg :: regs_register where
  "sha256_digest_reg =
     \<lparr>reg_name = ''SHA256_DIGEST'', reg_offset = 480, reg_width = 256, reg_reverse = True,
      reg_value = replicate 32 0, sub_regs = [], set_value_hooks = []\<rparr>"

definition cmpa0 :: config_area where
  "cmpa0 =
     \<lparr>device = ''lpc55s6x'', revision = ''1b'', class_name = ''CMPA'',
      registers = [boot_cfg_reg, socu_pin_reg, rotkh_reg, sha256_digest_reg],
      ignored_registers = [], computed_registers = [],
      computed_fields = [(''DCFG_CC_SOCU_PIN'', [(''INVERSE_VALUE'', ''pfr_reg_inverse_high_half'')])],
      latest_revision = ''1b'',
      seal_start_address = Some ''SHA256_DIGEST'', seal_count = Some 8\<rparr>"

text \<open>The same area without a ROTKH register.\<close>

definition cfpa0 :: config_area where
  "cfpa0 = cmpa0\<lparr>class_name := ''CFPA'',
                  registers := [boot_cfg_reg, socu_pin_reg, sha256_digest_reg]\<rparr>"

text \<open>The generator of the curve P-384 as a public key.\<close>

definition p384_generator :: public_key where
  "p384_generator =
     EllipticCurvePublicKey 384
       0xAA87CA22BE8B05378EB1C71EF320AD746E1D3B628BA79B9859F741E082542A385502F25DBF55296C3A545E3872760AB7
       0x3617DE4A96262C6F5D9E98BF9292DC29F8F41DBD289A147CE9DA3113B5F0B8C00A60B1CE1D7E819D7A431D7C90EA0E5F"

text \<open>The hash \<open>toy_hash\<close> gives for the RSA key with exponent 65537 and modulus 3233.\<close>

definition rsa_toy_hash :: bytes where
  "rsa_toy_hash = [0x0C, 0xA1, 0x01, 0x00, 0x01] @ replicate 27 0"

text \<open>An area whose one register is the ROTKH register, holding a hash.\<close>

definition rotkh_only :: config_area where
  "rotkh_only = cmpa0\<lparr>registers := [rotkh_reg\<lparr>reg_value := rsa_toy_hash\<rparr>]\<rparr>"

text \<open>
  Two user configurations for the area \<open>cmpa0\<close>: one that sets the plain register only, one
  that sets the register with the computed field.
\<close>

definition config_boot :: "bytes pfr_configuration" where
  "config_boot =
     \<lparr>cfg_device = Some ''lpc55s6x'', cfg_revision = None, cfg_type = Some ''cmpa'',
      cfg_settings = Some [(''BOOT_CFG'', [0x00, 0x00, 0x00, 0x01])]\<rparr>"

definition config_socu :: "bytes pfr_configuration" where
  "config_socu =
     \<lparr>cfg_device = Some ''lpc55s6x'', cfg_revision = None, cfg_type = Some ''cmpa'',
      cfg_settings = Some [(''DCFG_CC_SOCU_PIN'', [0x11, 0x22, 0x56, 0x78])]\<rparr>"

section \<open>Properties of the Master Boot Image type lookup\<close>

lemma image_key_False:
  "a @ ''-'' @ t @ ''-'' @ ''False'' = ''crc-ram-False'' \<longleftrightarrow> a = ''crc'' \<and> t = ''ram''"
  "a @ ''-'' @ t @ ''-'' @ ''False'' = ''crc-xip-False'' \<longleftrightarrow> a = ''crc'' \<and> t = ''xip''"
  "a @ ''-'' @ t @ ''-'' @ ''False'' = ''signed-xip-False'' \<longleftrightarrow> a = ''signed'' \<and> t = ''xip''"
  "a @ ''-'' @ t @ ''-'' @ ''False'' \<noteq> ''signed-xip-True''"
  by (auto simp: append_eq_Cons_conv Cons_eq_append_conv)

lemma image_key_True:
  "a @ ''-'' @ t @ ''-'' @ ''True'' \<noteq> ''crc-ram-False''"
  "a @ ''-'' @ t @ ''-'' @ ''True'' \<noteq> ''crc-xip-False''"
  "a @ ''-'' @ t @ ''-'' @ ''True'' \<noteq> ''signed-xip-False''"
  "a @ ''-'' @ t @ ''-'' @ ''True'' = ''signed-xip-True'' \<longleftrightarrow> a = ''signed'' \<and> t = ''xip''"
  by (auto simp: append_eq_Cons_conv Cons_eq_append_conv)

text \<open>
  C10. The lookup returns an image type for exactly four triples of authentication type,
  execution target and use-ISK flag: crc/ram/False, crc/xip/False, signed/xip/False and
  signed/xip/True. Every other triple, whatever the two strings are, raises KeyError.
\<close>

theorem master_boot_image_type_lookup:
  "get_master_boot_image_type a t b =
     (if a = ''crc'' \<and> t = ''ram'' \<and> b = False then Inr CRC_RAM_IMAGE
      else if a = ''crc'' \<and> t = ''xip'' \<and> b = False then Inr CRC_XIP_IMAGE
      else if a = ''signed'' \<and> t = ''xip'' \<and> b = False then Inr SIGNED_XIP_IMAGE
      else if a = ''signed'' \<and> t = ''xip'' \<and> b = True then Inr SIGNED_XIP_NXP_IMAGE
      else Inl KeyError)"
proof (cases b)
  case True
  then show ?thesis
    unfolding get_master_boot_image_type_def sb3_image_types_def str_bool_def Let_def
    using image_key_True [of a t] by auto
next
  case False
  then show ?thesis
    unfolding get_master_boot_image_type_def sb3_image_types_def str_bool_def Let_def
    using image_key_False [of a t] by auto
qed

lemma master_boot_image_type_examples:
  "get_master_boot_image_type ''signed'' ''ram'' False = Inl KeyError"
  "get_master_boot_image_type ''crc'' ''ram'' True = Inl KeyError"
  "get_master_boot_image_type ''signed'' ''xip'' True = Inr SIGNED_XIP_NXP_IMAGE"
  by (simp_all add: get_master_boot_image_type_def sb3_image_types_def str_bool_def)

section \<open>Properties of the Secure Binary v2.1 generator\<close>

text \<open>
  C9. An option given as the empty string (product or component version) or as \<open>-1\<close> (build
  number) gives the same run as the option left out: the whole generator returns the same
  result and file system, the values handed on are 1.0.0, 1.0.0 and 1 with the three
  warnings, and no run hands on an empty version or the build number \<open>-1\<close>.
\<close>

theorem sb21_explicit_defaults_as_missing:
  "generate_secure_binary_21 assemble (options\<lparr>productVersion := Some []\<rparr>) out pk sc rk hoh cwd files =
     generate_secure_binary_21 assemble (options\<lparr>productVersion := None\<rparr>) out pk sc rk hoh cwd files \<and>
   generate_secure_binary_21 assemble (options\<lparr>componentVersion := Some []\<rparr>) out pk sc rk hoh cwd files =
     generate_secure_binary_21 assemble (options\<lparr>componentVersion := None\<rparr>) out pk sc rk hoh cwd files \<and>
   generate_secure_binary_21 assemble (options\<lparr>buildNumber := Some (- 1)\<rparr>) out pk sc rk hoh cwd files =
     generate_secure_binary_21 assemble (options\<lparr>buildNumber := None\<rparr>) out pk sc rk hoh cwd files \<and>
   sb21_versions \<lparr>productVersion = Some [], componentVersion = Some [], buildNumber = Some (- 1)\<rparr> =
     sb21_versions \<lparr>productVersion = None, componentVersion = None, buildNumber = None\<rparr> \<and>
   sb21_versions \<lparr>productVersion = Some [], componentVersion = Some [], buildNumber = Some (- 1)\<rparr> =
     ((''1.0.0'', ''1.0.0'', 1),
      [''warning: production version not defined, defaults to 1.0.0'',
       ''warning: component version not defined, defaults to 1.0.0'',
       ''warning: build number not defined, defaults to 1.0.0'']) \<and>
   fst (fst (sb21_versions options)) \<noteq> [] \<and>
   fst (snd (fst (sb21_versions options))) \<noteq> [] \<and>
   snd (snd (fst (sb21_versions options))) \<noteq> - 1"
  by (simp add: generate_secure_binary_21_def sb21_versions_def Let_def)

lemma hoh_out_target_None: "hoh_out_target cwd None = cwd"
  by (simp add: hoh_out_target_def Let_def)

text \<open>
  C3. With no path for the hash of hashes, the file opened for it is the working directory
  itself, not \<open>hash.bin\<close> in it: the call ends in IsADirectoryError with the file system
  as it was, so neither \<open>hash.bin\<close> nor the output file is written.
\<close>

theorem hoh_default_opens_working_directory:
  assumes "files cwd = Some Dir"
    and "pk \<noteq> None" and "sc \<noteq> None" and "rk \<noteq> None"
  shows "generate_secure_binary_21 assemble options out pk sc rk None cwd files =
           (Raised IsADirectoryError, files)"
  using assms
  by (simp add: generate_secure_binary_21_def hoh_out_target_None open_wb_write_def
      split: prod.splits)

theorem hoh_default_opens_working_directory_witness:
  "generate_secure_binary_21 (\<lambda>pv cv bn. ([1, 2, 3], [4, 5, 6]))
       \<lparr>productVersion = None, componentVersion = None, buildNumber = None\<rparr>
       ''out.sb2'' (Some ''k0.pem'') (Some [''cert0.der'']) (Some [''root0.der'']) None
       ''/work'' [''/work'' \<mapsto> Dir] =
     (Raised IsADirectoryError, [''/work'' \<mapsto> Dir]) \<and>
   [''/work'' \<mapsto> Dir] (os_path_join ''/work'' ''hash.bin'') = None \<and>
   os_path_join ''/work'' ''hash.bin'' = ''/work/hash.bin''"
  using hoh_default_opens_working_directory
    [of "[''/work'' \<mapsto> Dir]" "''/work''" "Some ''k0.pem''" "Some [''cert0.der'']"
        "Some [''root0.der'']" "\<lambda>pv cv bn. ([1, 2, 3], [4, 5, 6])"
        "\<lparr>productVersion = None, componentVersion = None, buildNumber = None\<rparr>" "''out.sb2''"]
  by (simp add: os_path_join_def)

text \<open>With a path given, both files are written: the hash first, then the image.\<close>

lemma hoh_given_path_written:
  assumes "files hoh \<noteq> Some Dir" and "out \<noteq> hoh" and "files out \<noteq> Some Dir"
    and "pk \<noteq> None" and "sc \<noteq> None" and "rk \<noteq> None"
  shows "generate_secure_binary_21 assemble options out pk sc rk (Some hoh) cwd files =
           (Returned,
            files(hoh \<mapsto> File (fst (case fst (sb21_versions options) of
                                       (pv, cv, bn) \<Rightarrow> assemble pv cv bn)),
                  out \<mapsto> File (snd (case fst (sb21_versions options) of
                                       (pv, cv, bn) \<Rightarrow> assemble pv cv bn))))"
  using assms
  by (auto simp: generate_secure_binary_21_def hoh_out_target_def open_wb_write_def
      split: prod.splits option.splits node.splits)

section \<open>Properties of the Secure Binary v3.1 assembler\<close>

text \<open>
  C7. The signature is computed over header, previous-block hash and certificate block, and
  verified at once against these same bytes. When the verification fails the call ends in
  AssertionError with the file system as it was: nothing of the container is written. When
  it succeeds the container written is the signed bytes, the signature and the command block.
\<close>

theorem sb31_signature_self_check:
  "(\<not> ecc_verify (private_key_data parts)
        (ecc_sign (private_key_data parts) (signed_prefix header_export parts))
        (signed_prefix header_export parts) \<longrightarrow>
      generate_secure_binary header_export ecc_sign ecc_verify parts files =
        (Raised AssertionError, files)) \<and>
   (ecc_verify (private_key_data parts)
        (ecc_sign (private_key_data parts) (signed_prefix header_export parts))
        (signed_prefix header_export parts) \<longrightarrow>
      files (container_output parts) \<noteq> Some Dir \<longrightarrow>
      generate_secure_binary header_export ecc_sign ecc_verify parts files =
        (Returned, files(container_output parts \<mapsto>
           File (signed_prefix header_export parts @
                 ecc_sign (private_key_data parts) (signed_prefix header_export parts) @
                 commands_data parts))))"
  by (auto simp: generate_secure_binary_def signed_prefix_def Let_def open_wb_write_def
      split: option.splits node.splits)

theorem sb31_signature_self_check_witness:
  "generate_secure_binary (\<lambda>bc total. [of_nat bc, of_nat total]) (\<lambda>key d. [4, 2])
       (\<lambda>key sig d. False) parts0 Map.empty = (Raised AssertionError, Map.empty) \<and>
   generate_secure_binary (\<lambda>bc total. [of_nat bc, of_nat total]) (\<lambda>key d. [4, 2])
       (\<lambda>key sig d. sig = [4, 2]) parts0 Map.empty =
     (Returned, [''out.sb3'' \<mapsto> File [1, 73, 7, 7, 7, 7, 5, 4, 2, 9, 9]])"
  using sb31_signature_self_check
      [of "\<lambda>key sig d. False" parts0 "\<lambda>key d. [4, 2]" "\<lambda>bc total. [of_nat bc, of_nat total]" Map.empty]
    sb31_signature_self_check
      [of "\<lambda>key sig d. sig = [4, 2]" parts0 "\<lambda>key d. [4, 2]" "\<lambda>bc total. [of_nat bc, of_nat total]" Map.empty]
  by (simp add: parts0_def signed_prefix_def)

section \<open>Properties of the key hash\<close>

lemma bit_length_bound: "v < 2 ^ bit_length v"
proof (induction v rule: bit_length.induct)
  case (1 v)
  show ?case
  proof (cases "v = 0")
    case True
    then show ?thesis by (simp add: bit_length.simps)
  next
    case False
    with 1 have "v div 2 < 2 ^ bit_length (v div 2)" by simp
    then have "v < 2 * 2 ^ bit_length (v div 2)" by linarith
    with False show ?thesis by (subst bit_length.simps) simp
  qed
qed

lemma fits_minimal_length: "v < 256 ^ ceil_div8 (bit_length v)"
proof -
  have "bit_length v \<le> 8 * ceil_div8 (bit_length v)"
    by (simp add: ceil_div8_def)
  then have "(2::nat) ^ bit_length v \<le> 2 ^ (8 * ceil_div8 (bit_length v))"
    by (rule power_increasing) simp
  also have "\<dots> = 256 ^ ceil_div8 (bit_length v)"
    by (simp add: power_mult)
  finally show ?thesis
    using bit_length_bound [of v] by linarith
qed

lemma length_be_bytes: "length (be_bytes len v) = len"
  by (induction len arbitrary: v) simp_all

lemma be_value_snoc: "be_value (bs @ [b]) = 256 * be_value bs + unat b"
  by (simp add: be_value_def)

lemma be_value_be_bytes: "v < 256 ^ len \<Longrightarrow> be_value (be_bytes len v) = v"
proof (induction len arbitrary: v)
  case 0
  then show ?case by (simp add: be_value_def)
next
  case (Suc len)
  then have "v div 256 < 256 ^ len"
    by (simp add: less_mult_imp_div_less mult.commute)
  then have "be_value (be_bytes len (v div 256)) = v div 256"
    by (rule Suc.IH)
  moreover have "unat (of_nat (v mod 256) :: byte) = v mod 256"
    by (simp add: unat_of_nat)
  ultimately show ?case
    by (simp add: be_value_snoc)
qed

lemma to_bytes_minimal:
  "to_bytes_big v (ceil_div8 (bit_length v)) = Inr (be_bytes (ceil_div8 (bit_length v)) v)"
  by (simp add: to_bytes_big_def fits_minimal_length)

text \<open>
  C2 (as amended). The hash of an RSA key is taken over the big-endian bytes of the modulus
  followed by those of the exponent, each at its shortest length; the hash of an EC key over
  the big-endian bytes of X followed by those of Y, each of \<open>sha_width div 8\<close> bytes, and
  the call raises OverflowError when a coordinate does not fit. The hash is taken at the
  width given. The byte strings decode to the numbers they encode.
\<close>

theorem calc_pub_key_hash_order:
  "calc_pub_key_hash backend (RSAPublicKey e n) w =
     Inr (backend (be_bytes (ceil_div8 (bit_length n)) n @ be_bytes (ceil_div8 (bit_length e)) e) w) \<and>
   be_value (be_bytes (ceil_div8 (bit_length n)) n) = n \<and>
   be_value (be_bytes (ceil_div8 (bit_length e)) e) = e \<and>
   calc_pub_key_hash backend (EllipticCurvePublicKey ks x y) w =
     (if y < 256 ^ (w div 8) \<and> x < 256 ^ (w div 8)
      then Inr (backend (be_bytes (w div 8) x @ be_bytes (w div 8) y) w)
      else Inl OverflowError) \<and>
   (x < 256 ^ (w div 8) \<longrightarrow>
      be_value (be_bytes (w div 8) x) = x \<and> length (be_bytes (w div 8) x) = w div 8)"
  by (simp add: calc_pub_key_hash_def to_bytes_minimal to_bytes_big_def be_value_be_bytes
      fits_minimal_length length_be_bytes)

lemma bit_length_examples: "bit_length 65537 = 17" "bit_length 3233 = 12"
  by (simp_all add: bit_length.simps)

lemma be_bytes_numeral:
  "be_bytes (numeral k) v = be_bytes (pred_numeral k) (v div 256) @ [of_nat (v mod 256)]"
  by (simp only: numeral_eq_Suc [of k] be_bytes.simps)

lemma be_bytes_1: "be_bytes 1 v = [of_nat (v mod 256)]"
  using be_bytes.simps(2) [of 0 v] by simp

lemma be_bytes_examples:
  "be_bytes 3 65537 = [0x01, 0x00, 0x01]" "be_bytes 2 3233 = [0x0C, 0xA1]"
  "be_bytes 2 258 = [0x01, 0x02]" "be_bytes 2 772 = [0x03, 0x04]"
  by (simp_all add: be_bytes_numeral be_bytes_1)

lemma p256_generator_bytes:
  "be_bytes 32 0x6B17D1F2E12C4247F8BCE6E563A440F277037D812DEB33A0F4A13945D898C296 =
     p256_generator_x"
  "be_bytes 32 0x4FE342E2FE1A7F9B8EE7EB4A7C0F9E162BCE33576B315ECECBB6406837BF51F5 =
     p256_generator_y"
  by (simp_all add: be_bytes_numeral be_bytes_1 p256_generator_x_def p256_generator_y_def)

theorem calc_pub_key_hash_order_witness:
  "calc_pub_key_hash (\<lambda>d w. d) (RSAPublicKey 65537 3233) 256 =
     Inr [0x0C, 0xA1, 0x01, 0x00, 0x01] \<and>
   calc_pub_key_hash (\<lambda>d w. d) (EllipticCurvePublicKey 16 258 772) 16 =
     Inr [0x01, 0x02, 0x03, 0x04] \<and>
   (258::nat) < 256 ^ (16 div 8) \<and> be_value (be_bytes (16 div 8) 258) = 258"
  using calc_pub_key_hash_order
    [where backend = "\<lambda>d w. d" and e = 65537 and n = 3233 and w = 16 and ks = 16
       and x = 258 and y = 772]
    calc_pub_key_hash_order
    [where backend = "\<lambda>d w. d" and e = 65537 and n = 3233 and w = 256 and ks = 16
       and x = 258 and y = 772]
  by (simp add: bit_length_examples ceil_div8_def be_bytes_examples)

text \<open>
  The claim as worded, exponent before modulus and Y before X, fails: with a backend that
  returns the bytes it is given, the bytes hashed are in the other order, for an RSA key and
  for the generator of P-256.
\<close>

theorem pub_key_hash_order_counterexample:
  "calc_pub_key_hash (\<lambda>d w. d) (RSAPublicKey 65537 3233) 256 =
     Inr [0x0C, 0xA1, 0x01, 0x00, 0x01] \<and>
   spec_pub_key_hash (\<lambda>d w. d) (RSAPublicKey 65537 3233) 256 =
     Inr [0x01, 0x00, 0x01, 0x0C, 0xA1] \<and>
   calc_pub_key_hash (\<lambda>d w. d) (RSAPublicKey 65537 3233) 256 \<noteq>
     spec_pub_key_hash (\<lambda>d w. d) (RSAPublicKey 65537 3233) 256 \<and>
   calc_pub_key_hash (\<lambda>d w. d) p256_generator 256 =
     Inr (p256_generator_x @ p256_generator_y) \<and>
   spec_pub_key_hash (\<lambda>d w. d) p256_generator 256 =
     Inr (p256_generator_y @ p256_generator_x) \<and>
   p256_generator_x @ p256_generator_y \<noteq> p256_generator_y @ p256_generator_x"
proof -
  have rsa: "calc_pub_key_hash (\<lambda>d w. d) (RSAPublicKey 65537 3233) 256 =
               Inr [0x0C, 0xA1, 0x01, 0x00, 0x01]"
    "spec_pub_key_hash (\<lambda>d w. d) (RSAPublicKey 65537 3233) 256 =
               Inr [0x01, 0x00, 0x01, 0x0C, 0xA1]"
    by (simp_all add: calc_pub_key_hash_def spec_pub_key_hash_def to_bytes_big_def ceil_div8_def
        bit_length_examples be_bytes_examples)
  have ec: "calc_pub_key_hash (\<lambda>d w. d) p256_generator 256 =
              Inr (p256_generator_x @ p256_generator_y)"
    "spec_pub_key_hash (\<lambda>d w. d) p256_generator 256 =
              Inr (p256_generator_y @ p256_generator_x)"
    by (simp_all add: calc_pub_key_hash_def spec_pub_key_hash_def to_bytes_big_def
        p256_generator_def p256_generator_bytes)
  have ne: "p256_generator_x @ p256_generator_y \<noteq> p256_generator_y @ p256_generator_x"
    by (simp add: p256_generator_x_def p256_generator_y_def)
  show ?thesis
    using rsa ec ne by simp
qed

section \<open>Properties of the ROTKH computation\<close>

lemma key_hashes_of_all:
  "key_hashes_of backend w keys = Inr hs \<longleftrightarrow>
     list_all2 (\<lambda>k h. calc_pub_key_hash backend k w = Inr h) keys hs"
proof (induction keys arbitrary: hs)
  case Nil
  then show ?case by auto
next
  case (Cons key keys)
  show ?case
  proof (cases "calc_pub_key_hash backend key w")
    case (Inl err)
    then show ?thesis by (auto simp: list_all2_Cons1)
  next
    case (Inr h)
    then show ?thesis
      using Cons.IH by (cases "key_hashes_of backend w keys") (auto simp: list_all2_Cons1)
  qed
qed

lemma key_hashes_of_first_error:
  assumes "i < length keys"
    and "calc_pub_key_hash backend (keys ! i) w = Inl err"
    and "\<forall>j<i. \<exists>h. calc_pub_key_hash backend (keys ! j) w = Inr h"
  shows "key_hashes_of backend w keys = Inl err"
  using assms
proof (induction keys arbitrary: i)
  case Nil
  then show ?case by simp
next
  case (Cons key keys)
  show ?case
  proof (cases i)
    case 0
    with Cons.prems show ?thesis by simp
  next
    case (Suc k)
    with Cons.prems obtain h where h: "calc_pub_key_hash backend key w = Inr h"
      by fastforce
    have "key_hashes_of backend w keys = Inl err"
    proof (rule Cons.IH [of k])
      show "k < length keys" using Cons.prems Suc by simp
      show "calc_pub_key_hash backend (keys ! k) w = Inl err" using Cons.prems Suc by simp
      show "\<forall>j<k. \<exists>h. calc_pub_key_hash backend (keys ! j) w = Inr h"
        using Cons.prems(3) Suc by fastforce
    qed
    with h show ?thesis by simp
  qed
qed

lemma upt_4: "[0..<4] = [0, 1, 2, 3]"
  by (simp add: upt_rec)

text \<open>
  C5 (as amended). Let the area have a ROTKH register and let there be at least one key. The
  algorithm width is 256 for an RSA first key and the key size of an EC first key. When it
  exceeds the register width the computation fails with SPSDKPfrError, before any key is
  hashed. Otherwise, when every key has a hash at that width, the result is the hash, at
  that width, of four slots in order, slot \<open>i\<close> being the hash of key \<open>i\<close> or
  \<open>width div 8\<close> zero bytes when there is no key \<open>i\<close>, padded with trailing zero bytes to
  the register's width; and when a key has no hash at that width (an EC coordinate that
  does not fit), the computation raises what the first such key raises.
\<close>

theorem calc_rotkh_slots:
  assumes "find_reg ''ROTKH'' (registers area) = Inr reg" and "keys \<noteq> []"
  shows
    "(reg_width reg < algorithm_width_of (hd keys) \<longrightarrow>
        calc_rotkh backend area keys = Inl SPSDKPfrError) \<and>
     (algorithm_width_of (hd keys) \<le> reg_width reg \<longrightarrow>
        (\<forall>hs. list_all2 (\<lambda>k h. calc_pub_key_hash backend k (algorithm_width_of (hd keys)) = Inr h)
                keys hs \<longrightarrow>
           calc_rotkh backend area keys =
             Inr (ljust
                   (backend
                      (concat (map (\<lambda>i. if i < length keys then hs ! i
                                         else replicate (algorithm_width_of (hd keys) div 8) 0)
                                 [0, 1, 2, 3]))
                      (algorithm_width_of (hd keys)))
                   (reg_width reg div 8) 0)) \<and>
        (\<forall>i err. i < length keys \<and>
           calc_pub_key_hash backend (keys ! i) (algorithm_width_of (hd keys)) = Inl err \<and>
           (\<forall>j<i. \<exists>h. calc_pub_key_hash backend (keys ! j) (algorithm_width_of (hd keys)) = Inr h) \<longrightarrow>
           calc_rotkh backend area keys = Inl err))"
proof -
  obtain key0 others where keys: "keys = key0 # others"
    using assms(2) by (cases keys) auto
  then have hdk: "hd keys = key0"
    by simp
  let ?aw = "algorithm_width_of key0"
  have narrow: "calc_rotkh backend area keys = Inl SPSDKPfrError" if "reg_width reg < ?aw"
    using that assms(1) keys by (simp add: calc_rotkh_def)
  have wide: "calc_rotkh backend area keys =
      (case key_hashes_of backend ?aw keys of
         Inl err \<Rightarrow> Inl err
       | Inr key_hashes \<Rightarrow>
           Inr (ljust (backend (concat (map (\<lambda>i. if i < length key_hashes then key_hashes ! i
                                                 else replicate (?aw div 8) 0) [0..<4])) ?aw)
                  (reg_width reg div 8) 0))"
    if "?aw \<le> reg_width reg"
    using that assms(1) keys by (auto simp: calc_rotkh_def Let_def split: sum.splits)
  have ok: "calc_rotkh backend area keys =
      Inr (ljust (backend (concat (map (\<lambda>i. if i < length keys then hs ! i
                                            else replicate (?aw div 8) 0) [0, 1, 2, 3])) ?aw)
             (reg_width reg div 8) 0)"
    if "?aw \<le> reg_width reg"
      and "list_all2 (\<lambda>k h. calc_pub_key_hash backend k ?aw = Inr h) keys hs" for hs
  proof -
    have "key_hashes_of backend ?aw keys = Inr hs"
      using that(2) by (simp add: key_hashes_of_all)
    moreover have "length hs = length keys"
      using that(2) by (simp add: list_all2_lengthD)
    ultimately show ?thesis
      using wide [OF that(1)] by (simp add: upt_4)
  qed
  have bad: "calc_rotkh backend area keys = Inl err"
    if "?aw \<le> reg_width reg" and "i < length keys"
      and "calc_pub_key_hash backend (keys ! i) ?aw = Inl err"
      and "\<forall>j<i. \<exists>h. calc_pub_key_hash backend (keys ! j) ?aw = Inr h" for i err
    using wide [OF that(1)] key_hashes_of_first_error [OF that(2) that(3) that(4)] by simp
  show ?thesis
    unfolding hdk using narrow ok bad by blast
qed

lemma toy_hash_rsa:
  "calc_pub_key_hash toy_hash (RSAPublicKey 65537 3233) 256 = Inr rsa_toy_hash"
  by (simp add: calc_pub_key_hash_def to_bytes_big_def ceil_div8_def bit_length_examples
      be_bytes_examples toy_hash_def rsa_toy_hash_def)

lemma find_rotkh_cmpa0: "find_reg ''ROTKH'' (registers cmpa0) = Inr rotkh_reg"
  by (simp add: cmpa0_def boot_cfg_reg_def socu_pin_reg_def rotkh_reg_def)

lemma calc_rotkh_cmpa0:
  "calc_rotkh toy_hash cmpa0 [RSAPublicKey 65537 3233] = Inr rsa_toy_hash"
  by (simp add: calc_rotkh_def find_rotkh_cmpa0 algorithm_width_of_def toy_hash_rsa upt_4
      rotkh_reg_def ljust_def toy_hash_def rsa_toy_hash_def)

theorem calc_rotkh_slots_witness:
  "find_reg ''ROTKH'' (registers cmpa0) = Inr rotkh_reg \<and>
   calc_rotkh toy_hash cmpa0 [RSAPublicKey 65537 3233] =
     Inr (ljust (toy_hash (rsa_toy_hash @ replicate 32 0 @ replicate 32 0 @ replicate 32 0) 256)
            32 0) \<and>
   calc_rotkh toy_hash (cmpa0\<lparr>registers := [rotkh_reg\<lparr>reg_width := 128\<rparr>]\<rparr>)
       [RSAPublicKey 65537 3233] = Inl SPSDKPfrError"
proof -
  have ne: "[RSAPublicKey 65537 3233] \<noteq> []"
    by simp
  have all: "list_all2 (\<lambda>k h. calc_pub_key_hash toy_hash k 256 = Inr h)
      [RSAPublicKey 65537 3233] [rsa_toy_hash]"
    by (simp add: toy_hash_rsa)
  have narrow: "find_reg ''ROTKH'' (registers (cmpa0\<lparr>registers := [rotkh_reg\<lparr>reg_width := 128\<rparr>]\<rparr>)) =
      Inr (rotkh_reg\<lparr>reg_width := 128\<rparr>)"
    by (simp add: rotkh_reg_def)
  from calc_rotkh_slots [OF find_rotkh_cmpa0 ne, of toy_hash]
  have "\<forall>hs. list_all2 (\<lambda>k h. calc_pub_key_hash toy_hash k 256 = Inr h)
            [RSAPublicKey 65537 3233] hs \<longrightarrow>
          calc_rotkh toy_hash cmpa0 [RSAPublicKey 65537 3233] =
            Inr (ljust (toy_hash (hs ! 0 @ replicate 32 0 @ replicate 32 0 @ replicate 32 0) 256)
                   32 0)"
    by (simp add: algorithm_width_of_def rotkh_reg_def)
  from this [rule_format, OF all]
  have wide: "calc_rotkh toy_hash cmpa0 [RSAPublicKey 65537 3233] =
      Inr (ljust (toy_hash (rsa_toy_hash @ replicate 32 0 @ replicate 32 0 @ replicate 32 0) 256)
             32 0)"
    by simp
  from calc_rotkh_slots [OF narrow ne, of toy_hash]
  have "calc_rotkh toy_hash (cmpa0\<lparr>registers := [rotkh_reg\<lparr>reg_width := 128\<rparr>]\<rparr>)
      [RSAPublicKey 65537 3233] = Inl SPSDKPfrError"
    by (simp add: algorithm_width_of_def rotkh_reg_def)
  with wide show ?thesis
    by (simp add: find_rotkh_cmpa0)
qed

text \<open>
  The claim as worded, for every list of one to four keys, fails for keys of different
  sizes: with the generators of P-256 and P-384 as keys and a register of 256 bits the width
  is not too large, yet the second key's coordinates do not fit into 32 bytes and the
  computation raises OverflowError.
\<close>

theorem calc_rotkh_mixed_sizes_counterexample:
  "find_reg ''ROTKH'' (registers cmpa0) = Inr rotkh_reg \<and>
   algorithm_width_of p256_generator = reg_width rotkh_reg \<and>
   calc_pub_key_hash toy_hash p384_generator 256 = Inl OverflowError \<and>
   calc_rotkh toy_hash cmpa0 [p256_generator, p384_generator] = Inl OverflowError"
proof -
  have w: "algorithm_width_of p256_generator = 256"
    by (simp add: algorithm_width_of_def p256_generator_def)
  have h0: "calc_pub_key_hash toy_hash p256_generator 256 =
      Inr (toy_hash (p256_generator_x @ p256_generator_y) 256)"
    by (simp add: calc_pub_key_hash_def to_bytes_big_def p256_generator_def p256_generator_bytes)
  have h1: "calc_pub_key_hash toy_hash p384_generator 256 = Inl OverflowError"
    by (simp add: calc_pub_key_hash_def to_bytes_big_def p384_generator_def)
  have "calc_rotkh toy_hash cmpa0 [p256_generator, p384_generator] = Inl OverflowError"
    by (simp add: calc_rotkh_def find_rotkh_cmpa0 w h0 h1 rotkh_reg_def)
  with w h1 show ?thesis
    by (simp add: find_rotkh_cmpa0 rotkh_reg_def)
qed


section \<open>Properties of \<open>export\<close>\<close>

lemma find_reg_split:
  "find_reg name regs = Inr reg \<Longrightarrow>
     \<exists>pre post. regs = pre @ reg # post \<and> name \<notin> reg_name ` set pre \<and> reg_name reg = name"
proof (induction regs)
  case Nil
  then show ?case by simp
next
  case (Cons r regs)
  show ?case
  proof (cases "reg_name r = name")
    case True
    with Cons.prems have "r = reg" by simp
    with True show ?thesis by (intro exI [of _ "[]"] exI [of _ regs]) simp
  next
    case False
    with Cons obtain pre post
      where "regs = pre @ reg # post" "name \<notin> reg_name ` set pre" "reg_name reg = name"
      by auto
    with False show ?thesis
      by (intro exI [of _ "r # pre"] exI [of _ post]) auto
  qed
qed

lemma find_reg_absent:
  "find_reg name regs = Inl err \<longleftrightarrow>
     err = SPSDKRegsErrorRegisterNotFound \<and> name \<notin> reg_name ` set regs"
  by (induction regs) auto

lemma find_reg_first:
  "name \<notin> reg_name ` set pre \<Longrightarrow> reg_name reg = name \<Longrightarrow>
     find_reg name (pre @ reg # post) = Inr reg"
  by (induction pre) auto

lemma update_reg_raw:
  "name \<notin> reg_name ` set pre \<Longrightarrow> reg_name reg = name \<Longrightarrow>
     update_reg name (set_value v True) (pre @ reg # post) =
       Inr (pre @ reg\<lparr>reg_value := v\<rparr> # post)"
  by (induction pre) (auto simp: set_value_def)

lemma rotkh_inject_no_keys: "rotkh_inject backend [] area = Inr area"
  by (simp add: rotkh_inject_def)

lemma rotkh_inject_absent:
  assumes "keys \<noteq> []" and "ROTKH_REGISTER \<notin> reg_name ` set (registers area)"
  shows "rotkh_inject backend keys area = Inl SPSDKPfrRotkhIsNotPresent"
proof -
  have "find_reg ROTKH_REGISTER (registers area) = Inl SPSDKRegsErrorRegisterNotFound"
    using assms(2) by (simp add: find_reg_absent)
  then show ?thesis
    using assms(1) by (simp add: rotkh_inject_def)
qed

lemma rotkh_inject_present:
  assumes "keys \<noteq> []"
    and "registers area = pre @ reg # post"
    and "ROTKH_REGISTER \<notin> reg_name ` set pre" and "reg_name reg = ROTKH_REGISTER"
    and "calc_rotkh backend area keys = Inr rotkh_data"
  shows "rotkh_inject backend keys area =
           Inr (area\<lparr>registers := pre @ reg\<lparr>reg_value := rotkh_data\<rparr> # post\<rparr>)"
proof -
  have "find_reg ROTKH_REGISTER (registers area) = Inr reg"
    using assms(2-4) by (simp add: find_reg_first)
  moreover have "update_reg ROTKH_REGISTER (set_value rotkh_data True) (registers area) =
      Inr (pre @ reg\<lparr>reg_value := rotkh_data\<rparr> # post)"
    using assms(2-4) by (simp add: update_reg_raw)
  ultimately show ?thesis
    using assms(1,5) by (simp add: rotkh_inject_def)
qed

text \<open>
  C8. With keys given and no register named ROTKH, \<open>export\<close> raises
  SPSDKPfrRotkhIsNotPresent. With the register present and the hash computed, the register
  holds exactly the hash afterwards, whatever hooks it has (the value is stored raw), no
  other register is touched, and the bytes exported are those of the area so changed.
\<close>

theorem export_rotkh_injection:
  "(keys \<noteq> [] \<and> ROTKH_REGISTER \<notin> reg_name ` set (registers area) \<longrightarrow>
      export backend change_endianism add_seal keys area = Inl SPSDKPfrRotkhIsNotPresent) \<and>
   (keys \<noteq> [] \<and> find_reg ROTKH_REGISTER (registers area) = Inr reg \<and>
    calc_rotkh backend area keys = Inr rotkh_data \<longrightarrow>
      (\<exists>pre post.
         registers area = pre @ reg # post \<and> ROTKH_REGISTER \<notin> reg_name ` set pre \<and>
         rotkh_inject backend keys area =
           Inr (area\<lparr>registers := pre @ reg\<lparr>reg_value := rotkh_data\<rparr> # post\<rparr>) \<and>
         find_reg ROTKH_REGISTER (pre @ reg\<lparr>reg_value := rotkh_data\<rparr> # post) =
           Inr (reg\<lparr>reg_value := rotkh_data\<rparr>) \<and>
         export backend change_endianism add_seal keys area =
           (case export_data change_endianism add_seal
                   (area\<lparr>registers := pre @ reg\<lparr>reg_value := rotkh_data\<rparr> # post\<rparr>) of
              Inl err \<Rightarrow> Inl err
            | Inr data \<Rightarrow>
                Inr (data, area\<lparr>registers := pre @ reg\<lparr>reg_value := rotkh_data\<rparr> # post\<rparr>))))"
proof (intro conjI impI)
  assume "keys \<noteq> [] \<and> ROTKH_REGISTER \<notin> reg_name ` set (registers area)"
  then show "export backend change_endianism add_seal keys area = Inl SPSDKPfrRotkhIsNotPresent"
    by (simp add: export_def rotkh_inject_absent)
next
  assume a: "keys \<noteq> [] \<and> find_reg ROTKH_REGISTER (registers area) = Inr reg \<and>
    calc_rotkh backend area keys = Inr rotkh_data"
  then obtain pre post where s: "registers area = pre @ reg # post"
      "ROTKH_REGISTER \<notin> reg_name ` set pre" "reg_name reg = ROTKH_REGISTER"
    using find_reg_split by blast
  have inj: "rotkh_inject backend keys area =
      Inr (area\<lparr>registers := pre @ reg\<lparr>reg_value := rotkh_data\<rparr> # post\<rparr>)"
    using a s by (simp add: rotkh_inject_present)
  have f: "find_reg ROTKH_REGISTER (pre @ reg\<lparr>reg_value := rotkh_data\<rparr> # post) =
      Inr (reg\<lparr>reg_value := rotkh_data\<rparr>)"
    using s by (simp add: find_reg_first)
  have e: "export backend change_endianism add_seal keys area =
      (case export_data change_endianism add_seal
              (area\<lparr>registers := pre @ reg\<lparr>reg_value := rotkh_data\<rparr> # post\<rparr>) of
         Inl err \<Rightarrow> Inl err
       | Inr data \<Rightarrow>
           Inr (data, area\<lparr>registers := pre @ reg\<lparr>reg_value := rotkh_data\<rparr> # post\<rparr>))"
    using inj by (simp add: export_def)
  show "\<exists>pre post.
         registers area = pre @ reg # post \<and> ROTKH_REGISTER \<notin> reg_name ` set pre \<and>
         rotkh_inject backend keys area =
           Inr (area\<lparr>registers := pre @ reg\<lparr>reg_value := rotkh_data\<rparr> # post\<rparr>) \<and>
         find_reg ROTKH_REGISTER (pre @ reg\<lparr>reg_value := rotkh_data\<rparr> # post) =
           Inr (reg\<lparr>reg_value := rotkh_data\<rparr>) \<and>
         export backend change_endianism add_seal keys area =
           (case export_data change_endianism add_seal
                   (area\<lparr>registers := pre @ reg\<lparr>reg_value := rotkh_data\<rparr> # post\<rparr>) of
              Inl err \<Rightarrow> Inl err
            | Inr data \<Rightarrow>
                Inr (data, area\<lparr>registers := pre @ reg\<lparr>reg_value := rotkh_data\<rparr> # post\<rparr>))"
    using s(1,2) inj f e by blast
qed

lemma find_rotkh_register_cmpa0: "find_reg ROTKH_REGISTER (registers cmpa0) = Inr rotkh_reg"
  by (simp add: ROTKH_REGISTER_def find_rotkh_cmpa0)

theorem export_rotkh_injection_witness:
  "export toy_hash rev False [RSAPublicKey 65537 3233] cfpa0 = Inl SPSDKPfrRotkhIsNotPresent \<and>
   find_reg ROTKH_REGISTER (registers cmpa0) = Inr rotkh_reg \<and>
   calc_rotkh toy_hash cmpa0 [RSAPublicKey 65537 3233] = Inr rsa_toy_hash \<and>
   (\<exists>pre post.
      registers cmpa0 = pre @ rotkh_reg # post \<and> ROTKH_REGISTER \<notin> reg_name ` set pre \<and>
      rotkh_inject toy_hash [RSAPublicKey 65537 3233] cmpa0 =
        Inr (cmpa0\<lparr>registers := pre @ rotkh_reg\<lparr>reg_value := rsa_toy_hash\<rparr> # post\<rparr>) \<and>
      find_reg ROTKH_REGISTER (pre @ rotkh_reg\<lparr>reg_value := rsa_toy_hash\<rparr> # post) =
        Inr (rotkh_reg\<lparr>reg_value := rsa_toy_hash\<rparr>))"
proof -
  have absent: "[RSAPublicKey 65537 3233] \<noteq> [] \<and>
      ROTKH_REGISTER \<notin> reg_name ` set (registers cfpa0)"
    by (simp add: cfpa0_def boot_cfg_reg_def socu_pin_reg_def sha256_digest_reg_def
        ROTKH_REGISTER_def)
  have present: "[RSAPublicKey 65537 3233] \<noteq> [] \<and>
      find_reg ROTKH_REGISTER (registers cmpa0) = Inr rotkh_reg \<and>
      calc_rotkh toy_hash cmpa0 [RSAPublicKey 65537 3233] = Inr rsa_toy_hash"
    by (simp add: find_rotkh_register_cmpa0 calc_rotkh_cmpa0)
  note T = export_rotkh_injection
    [where keys = "[RSAPublicKey 65537 3233]" and backend = toy_hash and change_endianism = rev
       and add_seal = False]
  have "export toy_hash rev False [RSAPublicKey 65537 3233] cfpa0 = Inl SPSDKPfrRotkhIsNotPresent"
    using T [where area = cfpa0, THEN conjunct1] absent by blast
  moreover have "\<exists>pre post.
      registers cmpa0 = pre @ rotkh_reg # post \<and> ROTKH_REGISTER \<notin> reg_name ` set pre \<and>
      rotkh_inject toy_hash [RSAPublicKey 65537 3233] cmpa0 =
        Inr (cmpa0\<lparr>registers := pre @ rotkh_reg\<lparr>reg_value := rsa_toy_hash\<rparr> # post\<rparr>) \<and>
      find_reg ROTKH_REGISTER (pre @ rotkh_reg\<lparr>reg_value := rsa_toy_hash\<rparr> # post) =
        Inr (rotkh_reg\<lparr>reg_value := rsa_toy_hash\<rparr>)"
    using T [where area = cmpa0 and reg = rotkh_reg and rotkh_data = rsa_toy_hash, THEN conjunct2]
      present by blast
  ultimately show ?thesis
    using present by blast
qed

lemma length_slice_assign:
  "a \<le> b \<Longrightarrow> b \<le> length data \<Longrightarrow> length val = b - a \<Longrightarrow>
     length (slice_assign data a b val) = length data"
  by (simp add: slice_assign_def)

lemma slice_slice_assign:
  "a \<le> length data \<Longrightarrow> slice (slice_assign data a (a + length val) val) a (a + length val) = val"
  by (simp add: slice_assign_def slice_def)

lemma length_write_sub_reg:
  assumes "sub_reg_fits grp_reg" and "length data = BINARY_SIZE"
    and "\<forall>v. length (change_endianism v) = length v"
  shows "length (write_sub_reg change_endianism grp_reg data) = BINARY_SIZE"
  using assms
  by (simp add: write_sub_reg_def sub_reg_fits_def Let_def length_slice_assign)

lemma length_fold_write_sub_reg:
  assumes "list_all sub_reg_fits grp" and "length data = BINARY_SIZE"
    and "\<forall>v. length (change_endianism v) = length v"
  shows "length (fold (write_sub_reg change_endianism) grp data) = BINARY_SIZE"
  using assms
  by (induction grp arbitrary: data) (simp_all add: length_write_sub_reg)

lemma length_write_reg:
  assumes "reg_fits reg" and "length data = BINARY_SIZE"
    and "\<forall>v. length (change_endianism v) = length v"
  shows "length (write_reg change_endianism reg data) = BINARY_SIZE"
proof (cases "has_group_registers reg")
  case True
  then show ?thesis
    using assms by (simp add: write_reg_def reg_fits_def length_fold_write_sub_reg)
next
  case False
  then show ?thesis
    using assms
    by (simp add: write_reg_def reg_fits_def get_value_def Let_def length_slice_assign)
qed

lemma length_fold_write_reg:
  assumes "list_all reg_fits regs" and "length data = BINARY_SIZE"
    and "\<forall>v. length (change_endianism v) = length v"
  shows "length (fold (write_reg change_endianism) regs data) = BINARY_SIZE"
  using assms
  by (induction regs arbitrary: data) (simp_all add: length_write_reg)

lemma length_seal: "length (concat (replicate count MARK)) = count * 4"
  by (induction count) (simp_all add: MARK_def)

lemma export_data_seal:
  assumes "layout_ok area"
    and "\<forall>v. length (change_endianism v) = length v"
    and "seal_start_address area = Some start" and "start \<noteq> []"
    and "find_reg start (registers area) = Inr seal_reg"
    and "seal_count area = Some count" and "0 < count"
    and "reg_offset seal_reg + count * 4 \<le> BINARY_SIZE"
  shows "\<exists>data. export_data change_endianism True area = Inr data \<and>
           length data = BINARY_SIZE \<and>
           slice data (reg_offset seal_reg) (reg_offset seal_reg + count * 4) =
             concat (replicate count MARK)"
proof -
  define body where
    "body = fold (write_reg change_endianism) (area_get_registers area) (replicate BINARY_SIZE 0)"
  define sealed where
    "sealed = slice_assign body (reg_offset seal_reg) (reg_offset seal_reg + count * 4)
                (concat (replicate count MARK))"
  have body: "length body = BINARY_SIZE"
    unfolding body_def using assms(1,2)
    by (intro length_fold_write_reg) (simp_all add: layout_ok_def)
  have len: "length sealed = BINARY_SIZE"
    unfolding sealed_def using body assms(8)
    by (simp add: length_slice_assign length_seal)
  have seal: "slice sealed (reg_offset seal_reg) (reg_offset seal_reg + count * 4) =
      concat (replicate count MARK)"
    unfolding sealed_def
    using slice_slice_assign [of "reg_offset seal_reg" body "concat (replicate count MARK)"]
      body assms(8)
    by (simp add: length_seal)
  have "export_data change_endianism True area = Inr sealed"
    using assms(3-7) len
    by (simp add: export_data_def Let_def get_seal_start_address_def get_seal_count_def
        body_def sealed_def)
  with len seal show ?thesis
    by blast
qed

lemma calc_rotkh_length:
  assumes "calc_rotkh backend area keys = Inr rotkh_data"
    and "find_reg ''ROTKH'' (registers area) = Inr reg"
    and "\<forall>d w. length (backend d w) = w div 8"
  shows "length rotkh_data = reg_width reg div 8"
proof -
  obtain key0 others where keys: "keys = key0 # others"
    using assms(1,2) by (cases keys) (auto simp: calc_rotkh_def)
  let ?aw = "algorithm_width_of key0"
  have aw: "?aw \<le> reg_width reg"
    using assms(1,2) keys by (auto simp: calc_rotkh_def Let_def split: if_splits)
  then have "?aw div 8 \<le> reg_width reg div 8"
    by (rule div_le_mono)
  moreover obtain d where "rotkh_data = ljust (backend d ?aw) (reg_width reg div 8) 0"
    using assms(1,2) keys aw by (auto simp: calc_rotkh_def Let_def split: sum.splits)
  ultimately show ?thesis
    using assms(3) by (simp add: ljust_def)
qed

lemma layout_ok_set_value:
  assumes "layout_ok (area\<lparr>registers := pre @ reg # post\<rparr>)"
    and "length v = reg_width reg div 8"
  shows "layout_ok (area\<lparr>registers := pre @ reg\<lparr>reg_value := v\<rparr> # post\<rparr>)"
  using assms
  by (auto simp: layout_ok_def area_get_registers_def get_registers_def reg_fits_def
      has_group_registers_def)

lemma find_reg_offset_set_value:
  "map_sum id reg_offset (find_reg name (pre @ reg\<lparr>reg_value := v\<rparr> # post)) =
   map_sum id reg_offset (find_reg name (pre @ reg # post))"
  by (induction pre) auto

lemma rotkh_inject_cases:
  assumes "rotkh_inject backend keys area = Inr area1"
  shows "area1 = area \<or>
         (\<exists>pre reg post rotkh_data.
            registers area = pre @ reg # post \<and>
            find_reg ''ROTKH'' (registers area) = Inr reg \<and>
            calc_rotkh backend area keys = Inr rotkh_data \<and>
            area1 = area\<lparr>registers := pre @ reg\<lparr>reg_value := rotkh_data\<rparr> # post\<rparr>)"
proof (cases "keys = []")
  case True
  with assms show ?thesis by (simp add: rotkh_inject_def)
next
  case False
  from assms False obtain reg where reg: "find_reg ROTKH_REGISTER (registers area) = Inr reg"
    by (cases "find_reg ROTKH_REGISTER (registers area)") (auto simp: rotkh_inject_def)
  from assms False reg obtain rotkh_data where d: "calc_rotkh backend area keys = Inr rotkh_data"
    by (cases "calc_rotkh backend area keys") (auto simp: rotkh_inject_def)
  obtain pre post where s: "registers area = pre @ reg # post"
      "ROTKH_REGISTER \<notin> reg_name ` set pre" "reg_name reg = ROTKH_REGISTER"
    using find_reg_split [OF reg] by blast
  have "rotkh_inject backend keys area =
      Inr (area\<lparr>registers := pre @ reg\<lparr>reg_value := rotkh_data\<rparr> # post\<rparr>)"
    using False s d by (simp add: rotkh_inject_present)
  with assms have "area1 = area\<lparr>registers := pre @ reg\<lparr>reg_value := rotkh_data\<rparr> # post\<rparr>"
    by simp
  with s(1) reg d show ?thesis
    unfolding ROTKH_REGISTER_def by blast
qed

text \<open>
  With a layout that fits, a \<open>change_endianism\<close> that keeps lengths and a hash of the
  length of its width, \<open>export\<close> with \<open>add_seal\<close> returns whenever the ROTKH step does not
  raise, and what it returns has the seal in place.
\<close>

lemma export_seal_returns:
  assumes "layout_ok area"
    and "\<forall>v. length (change_endianism v) = length v"
    and "\<forall>d w. length (backend d w) = w div 8"
    and "seal_start_address area = Some start" and "start \<noteq> []"
    and "find_reg start (registers area) = Inr seal_reg"
    and "seal_count area = Some count" and "0 < count"
    and "reg_offset seal_reg + count * 4 \<le> BINARY_SIZE"
  shows "rotkh_inject backend [] area = Inr area \<and>
         (\<forall>area1. rotkh_inject backend keys area = Inr area1 \<longrightarrow>
            (\<exists>data. export backend change_endianism True keys area = Inr (data, area1) \<and>
               length data = BINARY_SIZE \<and>
               slice data (reg_offset seal_reg) (reg_offset seal_reg + count * 4) =
                 concat (replicate count MARK)))"
proof (intro conjI allI impI)
  show "rotkh_inject backend [] area = Inr area"
    by (rule rotkh_inject_no_keys)
next
  fix area1
  assume inj: "rotkh_inject backend keys area = Inr area1"
  have "\<exists>data. export_data change_endianism True area1 = Inr data \<and>
           length data = BINARY_SIZE \<and>
           slice data (reg_offset seal_reg) (reg_offset seal_reg + count * 4) =
             concat (replicate count MARK)"
    using rotkh_inject_cases [OF inj]
  proof (elim disjE exE conjE)
    assume "area1 = area"
    then show ?thesis
      using export_data_seal [OF assms(1,2,4,5,6,7,8,9)] by simp
  next
    fix pre reg post rotkh_data
    assume s: "registers area = pre @ reg # post"
      and reg: "find_reg ''ROTKH'' (registers area) = Inr reg"
      and d: "calc_rotkh backend area keys = Inr rotkh_data"
      and a1: "area1 = area\<lparr>registers := pre @ reg\<lparr>reg_value := rotkh_data\<rparr> # post\<rparr>"
    have len: "length rotkh_data = reg_width reg div 8"
      using calc_rotkh_length [OF d reg assms(3)] .
    have "area\<lparr>registers := pre @ reg # post\<rparr> = area"
      using s by simp
    then have ok: "layout_ok area1"
      unfolding a1 using layout_ok_set_value [where area = area and pre = pre and reg = reg and post = post and v = rotkh_data] assms(1) len
      by simp
    have "map_sum id reg_offset (find_reg start (registers area1)) = Inr (reg_offset seal_reg)"
      unfolding a1 using find_reg_offset_set_value [where name = start and pre = pre and reg = reg and v = rotkh_data and post = post] assms(6) s
      by simp
    then obtain seal_reg1 where f1: "find_reg start (registers area1) = Inr seal_reg1"
        and o1: "reg_offset seal_reg1 = reg_offset seal_reg"
      by (cases "find_reg start (registers area1)") auto
    have "\<exists>data. export_data change_endianism True area1 = Inr data \<and>
           length data = BINARY_SIZE \<and>
           slice data (reg_offset seal_reg1) (reg_offset seal_reg1 + count * 4) =
             concat (replicate count MARK)"
    proof (rule export_data_seal [OF ok assms(2) _ assms(5) f1 _ assms(8)])
      show "seal_start_address area1 = Some start" using assms(4) a1 by simp
      show "seal_count area1 = Some count" using assms(7) a1 by simp
      show "reg_offset seal_reg1 + count * 4 \<le> BINARY_SIZE" using assms(9) o1 by simp
    qed
    then show ?thesis
      using o1 by simp
  qed
  then show "\<exists>data. export backend change_endianism True keys area = Inr (data, area1) \<and>
               length data = BINARY_SIZE \<and>
               slice data (reg_offset seal_reg) (reg_offset seal_reg + count * 4) =
                 concat (replicate count MARK)"
    using inj by (auto simp: export_def)
qed

lemma layout_ok_cmpa0: "layout_ok cmpa0"
  by (simp add: layout_ok_def area_get_registers_def get_registers_def cmpa0_def reg_fits_def
      has_group_registers_def boot_cfg_reg_def socu_pin_reg_def rotkh_reg_def
      sha256_digest_reg_def BINARY_SIZE_def)

lemma length_toy_hash: "length (toy_hash d w) = w div 8"
  by (simp add: toy_hash_def)

lemma find_seal_cmpa0: "find_reg ''SHA256_DIGEST'' (registers cmpa0) = Inr sha256_digest_reg"
  by (simp add: cmpa0_def boot_cfg_reg_def socu_pin_reg_def rotkh_reg_def sha256_digest_reg_def)

lemma slice_assign_seal:
  assumes "length (slice_assign body s (s + n) seal) = m" and "length seal = n" and "s + n \<le> m"
  shows "slice (slice_assign body s (s + n) seal) s (s + n) = seal"
proof -
  have "s \<le> length body"
  proof (rule ccontr)
    assume "\<not> s \<le> length body"
    then have "length (slice_assign body s (s + n) seal) = length body + n"
      using assms(2) by (simp add: slice_assign_def)
    with assms(1,3) \<open>\<not> s \<le> length body\<close> show False
      by simp
  qed
  then show ?thesis
    using slice_slice_assign [of s body seal] assms(2) by simp
qed

lemma export_data_seal_partial:
  assumes "export_data change_endianism True area = Inr data"
    and "seal_start_address area = Some start"
    and "find_reg start (registers area) = Inr seal_reg"
    and "seal_count area = Some count"
    and "reg_offset seal_reg + count * 4 \<le> BINARY_SIZE"
  shows "length data = BINARY_SIZE \<and>
         slice data (reg_offset seal_reg) (reg_offset seal_reg + count * 4) =
           concat (replicate count MARK)"
proof -
  define body where
    "body = fold (write_reg change_endianism) (area_get_registers area) (replicate BINARY_SIZE 0)"
  have d: "data = slice_assign body (reg_offset seal_reg) (reg_offset seal_reg + count * 4)
                    (concat (replicate count MARK))"
    and len: "length data = BINARY_SIZE"
    using assms(1-4)
    by (auto simp: export_data_def Let_def get_seal_start_address_def get_seal_count_def
        body_def split: if_splits)
  have "slice data (reg_offset seal_reg) (reg_offset seal_reg + count * 4) =
      concat (replicate count MARK)"
    unfolding d
    by (rule slice_assign_seal [where m = BINARY_SIZE])
      (use len d assms(5) in \<open>simp_all add: length_seal\<close>)
  with len show ?thesis
    by simp
qed

lemma rotkh_inject_keeps_schema:
  assumes "rotkh_inject backend keys area = Inr area1"
  shows "seal_start_address area1 = seal_start_address area \<and>
         seal_count area1 = seal_count area \<and>
         map_sum id reg_offset (find_reg name (registers area1)) =
           map_sum id reg_offset (find_reg name (registers area))"
  using rotkh_inject_cases [OF assms]
proof (elim disjE exE conjE)
  assume "area1 = area"
  then show ?thesis by simp
next
  fix pre reg post rotkh_data
  assume "registers area = pre @ reg # post"
    and "area1 = area\<lparr>registers := pre @ reg\<lparr>reg_value := rotkh_data\<rparr> # post\<rparr>"
  then show ?thesis
    using find_reg_offset_set_value
      [where name = name and pre = pre and reg = reg and v = rotkh_data and post = post]
    by simp
qed

text \<open>
  C6. Let the database name a seal register and a seal count whose span, from the
  register's offset on, ends inside the area. Whatever the registers hold and whatever keys
  are given, every result of \<open>export\<close> with \<open>add_seal\<close> has exactly \<open>BINARY_SIZE\<close> bytes,
  and its bytes from the seal register's offset on are the mark, \<open>seal_count\<close> times: the
  seal is written after all registers. And \<open>export\<close> does return, whenever the ROTKH step
  does not raise (it never does without keys), if the layout fits the area,
  \<open>change_endianism\<close> keeps lengths and the backend's hash has the length of its width.
\<close>

theorem export_seal_present:
  assumes "seal_start_address area = Some start"
    and "find_reg start (registers area) = Inr seal_reg"
    and "seal_count area = Some count"
    and "reg_offset seal_reg + count * 4 \<le> BINARY_SIZE"
  shows "(\<forall>data area1.
            export backend change_endianism True keys area = Inr (data, area1) \<longrightarrow>
              length data = BINARY_SIZE \<and>
              slice data (reg_offset seal_reg) (reg_offset seal_reg + count * 4) =
                concat (replicate count MARK)) \<and>
         (layout_ok area \<and> start \<noteq> [] \<and> 0 < count \<and>
          (\<forall>v. length (change_endianism v) = length v) \<and>
          (\<forall>d w. length (backend d w) = w div 8) \<longrightarrow>
            rotkh_inject backend [] area = Inr area \<and>
            (\<forall>area1. rotkh_inject backend keys area = Inr area1 \<longrightarrow>
               (\<exists>data. export backend change_endianism True keys area = Inr (data, area1))))"
proof -
  have always: "length data = BINARY_SIZE \<and>
      slice data (reg_offset seal_reg) (reg_offset seal_reg + count * 4) =
        concat (replicate count MARK)"
    if e: "export backend change_endianism True keys area = Inr (data, area1)" for data area1
  proof -
    from e have inj: "rotkh_inject backend keys area = Inr area1"
      and d: "export_data change_endianism True area1 = Inr data"
      by (auto simp: export_def split: sum.splits)
    note k = rotkh_inject_keeps_schema [OF inj, where name = start]
    from k assms(2) obtain seal_reg1 where f1: "find_reg start (registers area1) = Inr seal_reg1"
      and o1: "reg_offset seal_reg1 = reg_offset seal_reg"
      by (cases "find_reg start (registers area1)") auto
    have "length data = BINARY_SIZE \<and>
        slice data (reg_offset seal_reg1) (reg_offset seal_reg1 + count * 4) =
          concat (replicate count MARK)"
      by (rule export_data_seal_partial [OF d _ f1]) (use k assms o1 in simp_all)
    then show ?thesis
      using o1 by simp
  qed
  have returns: "\<exists>data. export backend change_endianism True keys area = Inr (data, area1)"
    if "layout_ok area" and "start \<noteq> []" and "0 < count"
      and "\<forall>v. length (change_endianism v) = length v"
      and "\<forall>d w. length (backend d w) = w div 8"
      and inj: "rotkh_inject backend keys area = Inr area1" for area1
    using export_seal_returns [OF that(1,4,5) assms(1) that(2) assms(2,3) that(3) assms(4),
        where keys = keys] inj
    by blast
  show ?thesis
    using always returns rotkh_inject_no_keys [of backend area] by blast
qed

theorem export_seal_present_witness:
  "layout_ok cmpa0 \<and>
   find_reg ''SHA256_DIGEST'' (registers cmpa0) = Inr sha256_digest_reg \<and>
   (\<exists>data. export toy_hash rev True [] cmpa0 = Inr (data, cmpa0) \<and>
      length data = 512 \<and>
      slice data 480 512 = MARK @ MARK @ MARK @ MARK @ MARK @ MARK @ MARK @ MARK)"
proof -
  have seal: "seal_start_address cmpa0 = Some ''SHA256_DIGEST''" "seal_count cmpa0 = Some 8"
    by (simp_all add: cmpa0_def)
  have fit: "reg_offset sha256_digest_reg + 8 * 4 \<le> BINARY_SIZE"
    by (simp add: sha256_digest_reg_def BINARY_SIZE_def)
  note T = export_seal_present
    [OF seal(1) find_seal_cmpa0 seal(2) fit,
     where keys = "[]" and backend = toy_hash and change_endianism = rev]
  have "rotkh_inject toy_hash [] cmpa0 = Inr cmpa0 \<and>
      (\<forall>area1. rotkh_inject toy_hash [] cmpa0 = Inr area1 \<longrightarrow>
         (\<exists>data. export toy_hash rev True [] cmpa0 = Inr (data, area1)))"
    using T [THEN conjunct2] layout_ok_cmpa0 by (simp add: length_toy_hash)
  then obtain data where e: "export toy_hash rev True [] cmpa0 = Inr (data, cmpa0)"
    by blast
  with T [THEN conjunct1] have "length data = BINARY_SIZE \<and>
      slice data (reg_offset sha256_digest_reg) (reg_offset sha256_digest_reg + 8 * 4) =
        concat (replicate 8 MARK)"
    by blast
  moreover have "concat (replicate 8 MARK) = MARK @ MARK @ MARK @ MARK @ MARK @ MARK @ MARK @ MARK"
    by (simp add: numeral_eq_Suc)
  ultimately show ?thesis
    using layout_ok_cmpa0 find_seal_cmpa0 e
    by (auto simp: BINARY_SIZE_def sha256_digest_reg_def)
qed

section \<open>Properties of \<open>parse\<close> after \<open>export\<close>\<close>

lemma slice_write_back:
  "a + length val \<le> length data \<Longrightarrow>
     slice (slice_assign data a (a + length val) val) a (a + length val) = val"
  by (simp add: slice_slice_assign)

lemma parse_write_reg:
  assumes "sub_regs reg = []"
    and "reg_offset reg + reg_width reg div 8 \<le> length data"
    and "length (reg_value reg) = reg_width reg div 8"
    and "\<forall>v. length (change_endianism v) = length v"
  shows "parse_reg change_endianism (write_reg change_endianism reg data) reg =
           Inr (reg\<lparr>reg_value :=
                  change_endianism (if reg_reverse reg then reg_value reg
                                    else change_endianism (reg_value reg))\<rparr>)"
proof -
  let ?val = "if reg_reverse reg then reg_value reg else change_endianism (reg_value reg)"
  have len: "length ?val = reg_width reg div 8"
    using assms(3,4) by simp
  have w: "write_reg change_endianism reg data =
      slice_assign data (reg_offset reg) (reg_offset reg + length ?val) ?val"
    using assms(1) len
    by (simp add: write_reg_def has_group_registers_def get_value_def Let_def)
  have "slice (write_reg change_endianism reg data) (reg_offset reg)
      (reg_offset reg + reg_width reg div 8) = ?val"
    unfolding w using slice_write_back [of "reg_offset reg" ?val data] assms(2) len
    by simp
  then show ?thesis
    by (simp add: parse_reg_def set_value_def Let_def)
qed

text \<open>
  C1. The claim asks that \<open>parse\<close> of the exported bytes gives every register its value
  back. For a register with the reverse flag it does not: \<open>export\<close> writes the value as it
  is, \<open>parse\<close> sends the bytes through \<open>change_endianism\<close> all the same, so the register
  ends with \<open>change_endianism\<close> of its value.
\<close>

theorem parse_export_reverse_register:
  assumes "registers area = [reg]" and "ignored_registers area = []"
    and "reg_reverse reg" and "sub_regs reg = []"
    and "reg_offset reg + reg_width reg div 8 \<le> BINARY_SIZE"
    and "length (reg_value reg) = reg_width reg div 8"
    and "\<forall>v. length (change_endianism v) = length v"
  shows "\<exists>data. export backend change_endianism False [] area = Inr (data, area) \<and>
           parse change_endianism data area =
             Inr (area\<lparr>registers := [reg\<lparr>reg_value := change_endianism (reg_value reg)\<rparr>]\<rparr>)"
proof -
  define data where "data = write_reg change_endianism reg (replicate BINARY_SIZE 0)"
  have fits: "reg_fits reg"
    using assms(4,5,6) by (simp add: reg_fits_def has_group_registers_def)
  have len: "length data = BINARY_SIZE"
    unfolding data_def using fits assms(7) by (simp add: length_write_reg)
  have e: "export backend change_endianism False [] area = Inr (data, area)"
    using assms(1,2) len
    by (simp add: export_def rotkh_inject_def export_data_def area_get_registers_def
        get_registers_def data_def Let_def)
  have "parse_reg change_endianism data reg =
      Inr (reg\<lparr>reg_value := change_endianism (reg_value reg)\<rparr>)"
    unfolding data_def
    using parse_write_reg [OF assms(4) _ assms(6,7), of "replicate BINARY_SIZE 0"] assms(3,5)
    by simp
  then have "parse change_endianism data area =
      Inr (area\<lparr>registers := [reg\<lparr>reg_value := change_endianism (reg_value reg)\<rparr>]\<rparr>)"
    using assms(1,2) by (simp add: parse_def)
  with e show ?thesis
    by blast
qed

text \<open>
  A register without the flag gets its value back, when \<open>change_endianism\<close> is its own
  inverse.
\<close>

lemma parse_export_plain_register:
  assumes "registers area = [reg]" and "ignored_registers area = []"
    and "\<not> reg_reverse reg" and "sub_regs reg = []"
    and "reg_offset reg + reg_width reg div 8 \<le> BINARY_SIZE"
    and "length (reg_value reg) = reg_width reg div 8"
    and "\<forall>v. length (change_endianism v) = length v"
    and "\<forall>v. change_endianism (change_endianism v) = v"
  shows "\<exists>data. export backend change_endianism False [] area = Inr (data, area) \<and>
           parse change_endianism data area = Inr area"
proof -
  define data where "data = write_reg change_endianism reg (replicate BINARY_SIZE 0)"
  have fits: "reg_fits reg"
    using assms(4,5,6) by (simp add: reg_fits_def has_group_registers_def)
  have len: "length data = BINARY_SIZE"
    unfolding data_def using fits assms(7) by (simp add: length_write_reg)
  have e: "export backend change_endianism False [] area = Inr (data, area)"
    using assms(1,2) len
    by (simp add: export_def rotkh_inject_def export_data_def area_get_registers_def
        get_registers_def data_def Let_def)
  have "parse_reg change_endianism data reg = Inr reg"
    unfolding data_def
    using parse_write_reg [OF assms(4) _ assms(6,7), of "replicate BINARY_SIZE 0"] assms(3,5,8)
    by simp
  then have "parse change_endianism data area = Inr (area\<lparr>registers := [reg]\<rparr>)"
    using assms(1,2) by (simp add: parse_def)
  moreover have "area\<lparr>registers := [reg]\<rparr> = area"
    using assms(1) by simp
  ultimately show ?thesis
    using e by auto
qed

theorem parse_export_reverse_register_witness:
  "(\<exists>data. export toy_hash rev False [] rotkh_only = Inr (data, rotkh_only) \<and>
      parse rev data rotkh_only =
        Inr (rotkh_only\<lparr>registers := [rotkh_reg\<lparr>reg_value := rev rsa_toy_hash\<rparr>]\<rparr>)) \<and>
   rev rsa_toy_hash = replicate 27 0 @ [0x01, 0x00, 0x01, 0xA1, 0x0C] \<and>
   rev rsa_toy_hash \<noteq> rsa_toy_hash"
proof -
  have "\<exists>data. export toy_hash rev False [] rotkh_only = Inr (data, rotkh_only) \<and>
      parse rev data rotkh_only =
        Inr (rotkh_only\<lparr>registers :=
               [rotkh_reg\<lparr>reg_value := rsa_toy_hash\<rparr>
                  \<lparr>reg_value := rev (reg_value (rotkh_reg\<lparr>reg_value := rsa_toy_hash\<rparr>))\<rparr>]\<rparr>)"
    by (rule parse_export_reverse_register)
      (simp_all add: rotkh_only_def cmpa0_def rotkh_reg_def rsa_toy_hash_def BINARY_SIZE_def)
  moreover have "rev rsa_toy_hash = replicate 27 0 @ [0x01, 0x00, 0x01, 0xA1, 0x0C]"
    by (simp add: rsa_toy_hash_def)
  moreover have "rev rsa_toy_hash \<noteq> rsa_toy_hash"
    by (simp add: rsa_toy_hash_def numeral_eq_Suc)
  ultimately show ?thesis
    by simp
qed

section \<open>Properties of \<open>set_config\<close>\<close>

lemma run_hooks_all:
  "run_hooks exclude regs = Inr regs1 \<longleftrightarrow>
     list_all2 (\<lambda>reg reg1. (if reg_name reg \<in> set exclude then Inr reg
                              else set_value (get_value reg) False reg) = Inr reg1) regs regs1"
proof (induction regs arbitrary: regs1)
  case Nil
  then show ?case by auto
next
  case (Cons reg regs)
  show ?case
  proof (cases "if reg_name reg \<in> set exclude then Inr reg else set_value (get_value reg) False reg")
    case (Inl err)
    then show ?thesis by (auto simp: list_all2_Cons1)
  next
    case (Inr reg1)
    then show ?thesis
      using Cons.IH by (cases "run_hooks exclude regs") (auto simp: list_all2_Cons1)
  qed
qed

lemma exclude_hooks_iff:
  "reg \<in> set regs \<Longrightarrow>
     reg_name reg \<in> set (exclude_hooks regs settings) \<longleftrightarrow> reg_name reg \<notin> fst ` set settings"
  by (auto simp: exclude_hooks_def get_reg_names_def get_registers_def)

lemma run_hooks_exclude_hooks:
  assumes "run_hooks (exclude_hooks regs settings) regs = Inr regs1"
  shows "list_all2 (\<lambda>reg reg1. if reg_name reg \<in> fst ` set settings
                               then set_value (get_value reg) False reg = Inr reg1
                               else reg1 = reg) regs regs1"
proof -
  have "list_all2 (\<lambda>reg reg1. (if reg_name reg \<in> set (exclude_hooks regs settings) then Inr reg
                              else set_value (get_value reg) False reg) = Inr reg1) regs regs1"
    using assms by (simp add: run_hooks_all)
  then show ?thesis
  proof (rule list.rel_mono_strong)
    fix reg reg1
    assume "reg \<in> set regs" and "reg1 \<in> set regs1"
      and "(if reg_name reg \<in> set (exclude_hooks regs settings) then Inr reg
            else set_value (get_value reg) False reg) = Inr reg1"
    then show "if reg_name reg \<in> fst ` set settings
               then set_value (get_value reg) False reg = Inr reg1 else reg1 = reg"
      using exclude_hooks_iff [of reg regs settings] by (auto split: if_splits)
  qed
qed

text \<open>
  C4 (as amended). When \<open>set_config\<close> without \<open>raw\<close> returns, the settings were applied by
  \<open>load_yml_config\<close> and then the hooks were re-run exactly for the registers whose names
  are keys of the settings: each of them holds what its hooks make of the value it had after
  the settings were applied. Every register whose name is not a key is left out of the hook
  run and holds the value it had after the settings were applied.
\<close>

theorem set_config_hooks:
  assumes "set_config load_yml_config area config False = Inr area1"
  shows "\<exists>settings regs1.
           cfg_settings config = Some settings \<and>
           load_yml_config settings (ignored_registers area @ computed_registers area)
             (Some (computed_fields area)) (registers area) = Inr regs1 \<and>
           run_hooks (exclude_hooks regs1 settings) regs1 = Inr (registers area1) \<and>
           list_all2 (\<lambda>reg reg1. if reg_name reg \<in> fst ` set settings
                                  then set_value (get_value reg) False reg = Inr reg1
                                  else reg1 = reg) regs1 (registers area1)"
proof -
  from assms obtain settings where s: "cfg_settings config = Some settings"
    by (cases "cfg_settings config") (auto simp: set_config_def Let_def split: if_splits)
  from assms s obtain regs1 where l:
    "load_yml_config settings (ignored_registers area @ computed_registers area)
       (Some (computed_fields area)) (registers area) = Inr regs1"
    by (cases "load_yml_config settings (ignored_registers area @ computed_registers area)
                 (Some (computed_fields area)) (registers area)")
      (auto simp: set_config_def Let_def split: if_splits)
  from assms s l have h: "run_hooks (exclude_hooks regs1 settings) regs1 = Inr (registers area1)"
    by (cases "run_hooks (exclude_hooks regs1 settings) regs1")
      (auto simp: set_config_def Let_def split: if_splits)
  from s l h run_hooks_exclude_hooks [OF h] show ?thesis
    by blast
qed


lemma str_upper_cmpa: "str_upper ''cmpa'' = ''CMPA''"
  by (simp add: str_upper_def upper_char_def char_of_def bit_iff_odd)

lemma inverse_high_half_examples:
  "pfr_reg_inverse_high_half [0x00, 0x00, 0x56, 0x78] = Inr [0xA9, 0x87, 0x56, 0x78]"
  "pfr_reg_inverse_high_half [0x11, 0x22, 0x56, 0x78] = Inr [0xA9, 0x87, 0x56, 0x78]"
  by (simp_all add: pfr_reg_inverse_high_half_def)

lemma cmpa0_names:
  "reg_name boot_cfg_reg = ''BOOT_CFG''" "reg_name socu_pin_reg = ''DCFG_CC_SOCU_PIN''"
  "reg_name rotkh_reg = ''ROTKH''" "reg_name sha256_digest_reg = ''SHA256_DIGEST''"
  by (simp_all add: boot_cfg_reg_def socu_pin_reg_def rotkh_reg_def sha256_digest_reg_def)

lemma cmpa0_hooks:
  "set_value_hooks boot_cfg_reg = []"
  "set_value_hooks socu_pin_reg = [[(''INVERSE_VALUE'', ''pfr_reg_inverse_high_half'')]]"
  "set_value_hooks rotkh_reg = []" "set_value_hooks sha256_digest_reg = []"
  by (simp_all add: boot_cfg_reg_def socu_pin_reg_def rotkh_reg_def sha256_digest_reg_def)

lemma load_boot:
  "load_values [(''BOOT_CFG'', [0x00, 0x00, 0x00, 0x01])] [] (Some (computed_fields cmpa0))
      [boot_cfg_reg, socu_pin_reg, rotkh_reg, sha256_digest_reg] =
    Inr [boot_cfg_reg\<lparr>reg_value := [0x00, 0x00, 0x00, 0x01]\<rparr>, socu_pin_reg, rotkh_reg,
         sha256_digest_reg]"
  by (simp add: cmpa0_names set_value_def)

lemma load_socu:
  "load_values [(''DCFG_CC_SOCU_PIN'', [0x11, 0x22, 0x56, 0x78])] []
      (Some (computed_fields cmpa0)) [boot_cfg_reg, socu_pin_reg, rotkh_reg, sha256_digest_reg] =
    Inr [boot_cfg_reg, socu_pin_reg\<lparr>reg_value := [0x11, 0x22, 0x56, 0x78]\<rparr>, rotkh_reg,
         sha256_digest_reg]"
  by (simp add: cmpa0_names set_value_def)

lemma set_config_boot:
  "set_config load_values cmpa0 config_boot False =
     Inr (cmpa0\<lparr>registers :=
            [boot_cfg_reg\<lparr>reg_value := [0x00, 0x00, 0x00, 0x01]\<rparr>, socu_pin_reg, rotkh_reg,
             sha256_digest_reg]\<rparr>)"
proof -
  have c: "device cmpa0 = ''lpc55s6x''" "revision cmpa0 = ''1b''" "latest_revision cmpa0 = ''1b''"
    "class_name cmpa0 = ''CMPA''" "ignored_registers cmpa0 = []" "computed_registers cmpa0 = []"
    "registers cmpa0 = [boot_cfg_reg, socu_pin_reg, rotkh_reg, sha256_digest_reg]"
    by (simp_all add: cmpa0_def)
  have x: "exclude_hooks
      [boot_cfg_reg\<lparr>reg_value := [0x00, 0x00, 0x00, 0x01]\<rparr>, socu_pin_reg, rotkh_reg,
       sha256_digest_reg] [(''BOOT_CFG'', [0x00, 0x00, 0x00, 0x01 :: byte])] =
      [''DCFG_CC_SOCU_PIN'', ''ROTKH'', ''SHA256_DIGEST'']"
    by (simp add: exclude_hooks_def get_reg_names_def get_registers_def cmpa0_names)
  have h: "run_hooks [''DCFG_CC_SOCU_PIN'', ''ROTKH'', ''SHA256_DIGEST'']
      [boot_cfg_reg\<lparr>reg_value := [0x00, 0x00, 0x00, 0x01]\<rparr>, socu_pin_reg, rotkh_reg,
       sha256_digest_reg] =
      Inr [boot_cfg_reg\<lparr>reg_value := [0x00, 0x00, 0x00, 0x01]\<rparr>, socu_pin_reg, rotkh_reg,
           sha256_digest_reg]"
    by (simp add: cmpa0_names cmpa0_hooks set_value_def get_value_def)
  show ?thesis
    by (simp add: set_config_def config_boot_def c str_upper_cmpa load_boot x h
        del: load_values.simps run_hooks.simps)
qed

lemma set_config_socu:
  "set_config load_values cmpa0 config_socu False =
     Inr (cmpa0\<lparr>registers :=
            [boot_cfg_reg, socu_pin_reg\<lparr>reg_value := [0xA9, 0x87, 0x56, 0x78]\<rparr>, rotkh_reg,
             sha256_digest_reg]\<rparr>)"
proof -
  have c: "device cmpa0 = ''lpc55s6x''" "revision cmpa0 = ''1b''" "latest_revision cmpa0 = ''1b''"
    "class_name cmpa0 = ''CMPA''" "ignored_registers cmpa0 = []" "computed_registers cmpa0 = []"
    "registers cmpa0 = [boot_cfg_reg, socu_pin_reg, rotkh_reg, sha256_digest_reg]"
    by (simp_all add: cmpa0_def)
  have x: "exclude_hooks
      [boot_cfg_reg, socu_pin_reg\<lparr>reg_value := [0x11, 0x22, 0x56, 0x78]\<rparr>, rotkh_reg,
       sha256_digest_reg] [(''DCFG_CC_SOCU_PIN'', [0x11, 0x22, 0x56, 0x78 :: byte])] =
      [''BOOT_CFG'', ''ROTKH'', ''SHA256_DIGEST'']"
    by (simp add: exclude_hooks_def get_reg_names_def get_registers_def cmpa0_names)
  have h: "run_hooks [''BOOT_CFG'', ''ROTKH'', ''SHA256_DIGEST'']
      [boot_cfg_reg, socu_pin_reg\<lparr>reg_value := [0x11, 0x22, 0x56, 0x78]\<rparr>, rotkh_reg,
       sha256_digest_reg] =
      Inr [boot_cfg_reg, socu_pin_reg\<lparr>reg_value := [0xA9, 0x87, 0x56, 0x78]\<rparr>, rotkh_reg,
           sha256_digest_reg]"
    by (simp add: cmpa0_names cmpa0_hooks set_value_def get_value_def compute_method_def
        inverse_high_half_examples)
  show ?thesis
    by (simp add: set_config_def config_socu_def c str_upper_cmpa load_socu x h
        del: load_values.simps run_hooks.simps)
qed

lemma spec_rerun_boot:
  "spec_rerun_hooks
      [boot_cfg_reg\<lparr>reg_value := [0x00, 0x00, 0x00, 0x01]\<rparr>, socu_pin_reg, rotkh_reg,
       sha256_digest_reg] [(''BOOT_CFG'', [0x00, 0x00, 0x00, 0x01 :: byte])] =
     Inr [boot_cfg_reg\<lparr>reg_value := [0x00, 0x00, 0x00, 0x01]\<rparr>,
          socu_pin_reg\<lparr>reg_value := [0xA9, 0x87, 0x56, 0x78]\<rparr>, rotkh_reg,
          sha256_digest_reg]"
proof -
  have v: "reg_value socu_pin_reg = [0x00, 0x00, 0x56, 0x78]"
    "reg_value rotkh_reg = replicate 32 0" "reg_value sha256_digest_reg = replicate 32 0"
    by (simp_all add: socu_pin_reg_def rotkh_reg_def sha256_digest_reg_def)
  have same: "rotkh_reg\<lparr>reg_value := replicate 32 0\<rparr> = rotkh_reg"
    "sha256_digest_reg\<lparr>reg_value := replicate 32 0\<rparr> = sha256_digest_reg"
    by (simp_all add: rotkh_reg_def sha256_digest_reg_def)
  show ?thesis
    by (simp add: spec_rerun_hooks_def cmpa0_names cmpa0_hooks set_value_def get_value_def
        compute_method_def v inverse_high_half_examples same)
qed


theorem set_config_hooks_witness:
  "set_config load_values cmpa0 config_socu False =
     Inr (cmpa0\<lparr>registers :=
            [boot_cfg_reg, socu_pin_reg\<lparr>reg_value := [0xA9, 0x87, 0x56, 0x78]\<rparr>, rotkh_reg,
             sha256_digest_reg]\<rparr>) \<and>
   (\<exists>settings regs1.
      cfg_settings config_socu = Some settings \<and>
      load_values settings (ignored_registers cmpa0 @ computed_registers cmpa0)
        (Some (computed_fields cmpa0)) (registers cmpa0) = Inr regs1 \<and>
      run_hooks (exclude_hooks regs1 settings) regs1 =
        Inr [boot_cfg_reg, socu_pin_reg\<lparr>reg_value := [0xA9, 0x87, 0x56, 0x78]\<rparr>, rotkh_reg,
             sha256_digest_reg] \<and>
      list_all2 (\<lambda>reg reg1. if reg_name reg \<in> fst ` set settings
                             then set_value (get_value reg) False reg = Inr reg1
                             else reg1 = reg) regs1
        [boot_cfg_reg, socu_pin_reg\<lparr>reg_value := [0xA9, 0x87, 0x56, 0x78]\<rparr>, rotkh_reg,
         sha256_digest_reg])"
  using set_config_hooks [OF set_config_socu] set_config_socu
  by simp

text \<open>
  The claim as worded, hooks for the registers the user did not set and none over a value
  the user set, fails on the area \<open>cmpa0\<close>. When only BOOT_CFG is configured, the
  register with the computed field is not configured, and its hook is not run: it keeps
  00 00 56 78, where a hook run would give A9 87 56 78. When that register is configured
  with 11 22 56 78, its hook runs and the register ends with A9 87 56 78.
\<close>

theorem set_config_hooks_counterexample:
  "set_config load_values cmpa0 config_boot False =
     Inr (cmpa0\<lparr>registers :=
            [boot_cfg_reg\<lparr>reg_value := [0x00, 0x00, 0x00, 0x01]\<rparr>, socu_pin_reg, rotkh_reg,
             sha256_digest_reg]\<rparr>) \<and>
   spec_rerun_hooks
       [boot_cfg_reg\<lparr>reg_value := [0x00, 0x00, 0x00, 0x01]\<rparr>, socu_pin_reg, rotkh_reg,
        sha256_digest_reg] [(''BOOT_CFG'', [0x00, 0x00, 0x00, 0x01 :: byte])] =
     Inr [boot_cfg_reg\<lparr>reg_value := [0x00, 0x00, 0x00, 0x01]\<rparr>,
          socu_pin_reg\<lparr>reg_value := [0xA9, 0x87, 0x56, 0x78]\<rparr>, rotkh_reg,
          sha256_digest_reg] \<and>
   socu_pin_reg\<lparr>reg_value := [0xA9, 0x87, 0x56, 0x78]\<rparr> \<noteq> socu_pin_reg \<and>
   set_config load_values cmpa0 config_socu False =
     Inr (cmpa0\<lparr>registers :=
            [boot_cfg_reg, socu_pin_reg\<lparr>reg_value := [0xA9, 0x87, 0x56, 0x78]\<rparr>, rotkh_reg,
             sha256_digest_reg]\<rparr>) \<and>
   [0xA9, 0x87, 0x56, 0x78] \<noteq> [0x11, 0x22, 0x56, 0x78 :: byte]"
proof -
  have "socu_pin_reg\<lparr>reg_value := [0xA9, 0x87, 0x56, 0x78]\<rparr> \<noteq> socu_pin_reg"
    by (simp add: socu_pin_reg_def)
  then show ?thesis
    using set_config_boot spec_rerun_boot set_config_socu by simp
qed

end
